theory Spec2Isabelle
  imports Main "HOL-Library.Word" "HOL-Library.AList"
begin

section \<open>rblineprof: a shallow embedding of ext/rblineprof.c\<close>

text \<open>
  The extension keeps one global struct \<open>rblineprof\<close>, a line-event hook
  \<open>profiler_hook\<close> that the interpreter calls before every executed line, and the
  public entry point \<open>lineprof\<close>. The embedding passes the global struct around
  explicitly. What the C code takes from its environment is an input of the model:
  the clock reading of \<open>timeofday_usec\<close>, the contents of the memory that
  \<open>realloc\<close> hands out beyond the old block, and the match function of the
  \<open>Regexp\<close> object.
\<close>

subsection \<open>Data\<close>

type_synonym uint64_t = "64 word"

text \<open>
  \<open>sourcefile_t\<close> (lines 13-20). A \<open>NULL\<close> pointer is \<open>None\<close>; a non-null
  \<open>lines\<close> pointer is the allocated block itself, so the size of the allocation is
  the length of the list, whatever \<open>nlines\<close> says. File names are interned by the
  interpreter (\<open>rb_source_filename\<close>), so equal pointers are equal strings.
\<close>

record sourcefile_t =
  filename :: "string option"
  lines :: "uint64_t list option"
  nlines :: nat
  last_time :: uint64_t
  last_line :: nat

text \<open>
  The values that reach \<open>lineprof\<close> as its argument or sit in \<open>source_regex\<close>.
  A \<open>Regexp\<close> is the function that tells whether \<open>rb_reg_search\<close> finds a match
  (returns a position \<open>\<ge> 0\<close>) in a string.
\<close>

datatype VALUE = Qfalse | Str string | Regex "string \<Rightarrow> bool" | Object

text \<open>
  A record of the table \<open>rblineprof.files\<close>: the sentinel \<open>Qnil\<close> for a known
  negative match, or the pointer to a heap-allocated \<open>sourcefile_t\<close>, which the
  table entry owns exclusively (it is created by the hook and never shared).
\<close>

datatype st_record = Qnil_record | Pointer sourcefile_t

type_synonym st_table = "(string \<times> st_record) list"

text \<open>
  The global struct (lines 22-38); its field \<open>file\<close> is \<open>file_data\<close> here. The
  last field is instrumentation and no field of the C struct: it lists, in order, the
  file names on which \<open>rb_reg_search\<close> has been called.
\<close>

record rblineprof_t =
  enabled :: bool
  source_filename :: "string option"
  file_data :: sourcefile_t
  source_regex :: VALUE
  files :: st_table
  reg_search_log :: "string list"

text \<open>
  One line event: the file and line of the node, the value \<open>timeofday_usec\<close>
  returns if the hook reads the clock, and the contents \<open>realloc\<close> leaves in the
  slots beyond the old block if the hook grows an array (slot \<open>i\<close> holds
  \<open>ev_heap i\<close>). \<open>nd_line\<close> is unsigned, so a line is a natural number.
\<close>

record event =
  ev_file :: string
  ev_line :: nat
  ev_now :: uint64_t
  ev_heap :: "nat \<Rightarrow> uint64_t"

text \<open>
  Failures of the C code that end the process or leave it undefined: a write or read
  beyond an allocated block, a dereference of an invalid pointer (\<open>NULL\<close> or the
  sentinel \<open>Qnil\<close> cast to a pointer), the use of the value of a function that
  returned without one, and \<open>rb_reg_search\<close> on a value that is no \<open>Regexp\<close>.
\<close>

datatype fault = out_of_bounds | invalid_pointer | indeterminate_value | not_a_regexp

datatype rb_class = rb_eArgError | rb_eOther string

datatype exception = rb_raise rb_class string

type_synonym report = "(string \<times> nat list) list"

text \<open>
  What a call of \<open>lineprof\<close> does: it returns the report, or it is left by a Ruby
  exception, or the process faults. The first two leave a global state behind.
\<close>

datatype outcome =
  Return report rblineprof_t
| Raise exception rblineprof_t
| Crash fault

text \<open>
  The block given to \<open>lineprof\<close>, seen from the extension: the line events it fires,
  and the exception that ends it, if one does.
\<close>

record block =
  events :: "event list"
  raises :: "exception option"

subsection \<open>The C library and the hash table of the interpreter\<close>

definition calloc :: "nat \<Rightarrow> uint64_t list" where
  "calloc n = replicate n 0"

text \<open>
  Allocation is taken to succeed. \<open>realloc\<close> keeps the old contents up to the new
  size; the slots beyond the old block are not initialised and hold what the heap had
  there.
\<close>

definition realloc :: "(nat \<Rightarrow> uint64_t) \<Rightarrow> uint64_t list option \<Rightarrow> nat \<Rightarrow> uint64_t list" where
  "realloc heap old n =
     (case old of
        None \<Rightarrow> map heap [0..<n]
      | Some a \<Rightarrow> take n a @ map heap [length a..<n])"

text \<open>
  The all-zero \<open>sourcefile_t\<close>: what \<open>calloc(1, sizeof(*sourcefile))\<close> returns, and
  the initial value of the static \<open>rblineprof.file\<close>.
\<close>

definition calloc_sourcefile :: sourcefile_t where
  "calloc_sourcefile =
     \<lparr>filename = None, lines = None, nlines = 0, last_time = 0, last_line = 0\<rparr>"

definition st_lookup :: "st_table \<Rightarrow> string \<Rightarrow> st_record option" where
  "st_lookup tbl key = map_of tbl key"

definition st_insert :: "st_table \<Rightarrow> string \<Rightarrow> st_record \<Rightarrow> st_table" where
  "st_insert tbl key rec = AList.update key rec tbl"

datatype st_retval = ST_CONTINUE | ST_STOP | ST_DELETE | ST_CHECK

text \<open>
  The table maps interned file names to records; \<open>st_insert\<close> replaces the record of
  a key that is present. \<open>st_foreach\<close> calls the function on every entry with the
  shared argument and follows its return value: keep the entry and go on, stop, or
  delete the entry and go on. A callback that faults ends the iteration with its fault.
\<close>

fun st_foreach ::
  "st_table \<Rightarrow> (string \<Rightarrow> st_record \<Rightarrow> 'a \<Rightarrow> fault + st_retval \<times> 'a) \<Rightarrow> 'a \<Rightarrow> fault + st_table \<times> 'a"
where
  "st_foreach [] func arg = Inr ([], arg)"
| "st_foreach ((key, rec) # tbl) func arg =
     (case func key rec arg of
        Inl flt \<Rightarrow> Inl flt
      | Inr (ST_STOP, arg') \<Rightarrow> Inr ((key, rec) # tbl, arg')
      | Inr (ST_DELETE, arg') \<Rightarrow> st_foreach tbl func arg'
      | Inr (_, arg') \<Rightarrow>
          (case st_foreach tbl func arg' of
             Inl flt \<Rightarrow> Inl flt
           | Inr (tbl', arg'') \<Rightarrow> Inr ((key, rec) # tbl', arg'')))"

definition rb_reg_search :: "VALUE \<Rightarrow> string \<Rightarrow> bool option" where
  "rb_reg_search re s = (case re of Regex matches \<Rightarrow> Some (matches s) | _ \<Rightarrow> None)"

subsection \<open>The line-event hook\<close>

text \<open>
  Lines 82-104, the body of \<open>if (sourcefile)\<close>. With a previous event on record
  (\<open>last_time\<close> not 0) the array is allocated if there is none, sized by the line of
  the current event, grown if the current line is at or beyond \<open>nlines\<close>, and the
  elapsed time is added to the slot of \<open>last_line\<close>. The addition is on 64-bit
  unsigned integers. A write beyond the block is the fault \<open>out_of_bounds\<close>.
\<close>

definition record_sample :: "sourcefile_t \<Rightarrow> event \<Rightarrow> fault + sourcefile_t" where
  "record_sample sf e =
     (if last_time sf \<noteq> 0 then
        (let sf1 = (if lines sf = None
                    then sf\<lparr>nlines := ev_line e + 100, lines := Some (calloc (ev_line e + 100))\<rparr>
                    else sf);
             sf2 = (if ev_line e \<ge> nlines sf1
                    then sf1\<lparr>nlines := ev_line e + 100,
                             lines := Some (realloc (ev_heap e) (lines sf1) (ev_line e + 100))\<rparr>
                    else sf1)
         in case lines sf2 of
              None \<Rightarrow> Inl invalid_pointer
            | Some a \<Rightarrow>
                if last_line sf2 < length a
                then Inr (sf2\<lparr>lines := Some (a[last_line sf2 := a ! last_line sf2 + (ev_now e - last_time sf2)]),
                              last_time := ev_now e, last_line := ev_line e\<rparr>)
                else Inl out_of_bounds)
      else Inr (sf\<lparr>last_time := ev_now e, last_line := ev_line e\<rparr>))"

text \<open>
  \<open>profiler_hook\<close> (lines 49-105). In single file mode the record is the struct
  \<open>rblineprof.file\<close>; in regex mode it is the heap object the table entry points to,
  so the updated record is stored back under the same key.
\<close>

definition profiler_hook :: "rblineprof_t \<Rightarrow> event \<Rightarrow> fault + rblineprof_t" where
  "profiler_hook st e =
     (case source_filename st of
        Some name \<Rightarrow>
          (if name = ev_file e
           then (case record_sample ((file_data st)\<lparr>filename := Some (ev_file e)\<rparr>) e of
                   Inl flt \<Rightarrow> Inl flt
                 | Inr sf \<Rightarrow> Inr (st\<lparr>file_data := sf\<rparr>))
           else Inr st)
      | None \<Rightarrow>
          (case st_lookup (files st) (ev_file e) of
             Some Qnil_record \<Rightarrow> Inr st
           | Some (Pointer sf0) \<Rightarrow>
               (case record_sample sf0 e of
                  Inl flt \<Rightarrow> Inl flt
                | Inr sf \<Rightarrow> Inr (st\<lparr>files := st_insert (files st) (ev_file e) (Pointer sf)\<rparr>))
           | None \<Rightarrow>
               (case rb_reg_search (source_regex st) (ev_file e) of
                  None \<Rightarrow> Inl not_a_regexp
                | Some matched \<Rightarrow>
                    (let st1 = st\<lparr>reg_search_log := reg_search_log st @ [ev_file e]\<rparr>
                     in if matched
                        then (case record_sample (calloc_sourcefile\<lparr>filename := Some (ev_file e)\<rparr>) e of
                                Inl flt \<Rightarrow> Inl flt
                              | Inr sf \<Rightarrow>
                                  Inr (st1\<lparr>files := st_insert (files st1) (ev_file e) (Pointer sf)\<rparr>))
                        else Inr (st1\<lparr>files := st_insert (files st1) (ev_file e) Qnil_record\<rparr>)))))"

text \<open>The hook on the events of a block, in order; a fault ends the run.\<close>

fun run_events :: "rblineprof_t \<Rightarrow> event list \<Rightarrow> fault + rblineprof_t" where
  "run_events st [] = Inr st"
| "run_events st (e # es) =
     (case profiler_hook st e of
        Inl flt \<Rightarrow> Inl flt
      | Inr st' \<Rightarrow> run_events st' es)"

subsection \<open>The table callbacks\<close>

text \<open>
  \<open>cleanup_files\<close> (lines 114-125). For the sentinel the function leaves by a
  \<open>return\<close> without a value, although \<open>st_foreach\<close> uses the value: the fault
  \<open>indeterminate_value\<close>.
\<close>

definition cleanup_files :: "string \<Rightarrow> st_record \<Rightarrow> unit \<Rightarrow> fault + st_retval \<times> unit" where
  "cleanup_files key rec arg =
     (case rec of
        Qnil_record \<Rightarrow> Inl indeterminate_value
      | Pointer sf \<Rightarrow> Inr (ST_DELETE, ()))"

text \<open>
  The loop of lines 135-136 and 182-183: the first \<open>nlines\<close> slots as Ruby
  integers (\<open>ULL2NUM\<close> keeps the value).
\<close>

definition lines_ary :: "sourcefile_t \<Rightarrow> fault + nat list" where
  "lines_ary sf =
     (if nlines sf = 0 then Inr []
      else case lines sf of
             None \<Rightarrow> Inl invalid_pointer
           | Some a \<Rightarrow> if nlines sf \<le> length a then Inr (map unat (take (nlines sf) a))
                       else Inl out_of_bounds)"

text \<open>
  \<open>summarize_files\<close> (lines 127-140) reads the record as a \<open>sourcefile_t\<close>
  without looking for the sentinel: on \<open>Qnil\<close> it dereferences an invalid pointer.
  The key of the hash is the string of the \<open>filename\<close> field; the hook sets that field
  when it creates the record, and a \<open>NULL\<close> there, which no run of the hook leaves,
  is taken as a fault too.
\<close>

definition summarize_files :: "string \<Rightarrow> st_record \<Rightarrow> report \<Rightarrow> fault + st_retval \<times> report" where
  "summarize_files key rec ret =
     (case rec of
        Qnil_record \<Rightarrow> Inl invalid_pointer
      | Pointer sf \<Rightarrow>
          (case lines_ary sf of
             Inl flt \<Rightarrow> Inl flt
           | Inr ary \<Rightarrow>
               (case filename sf of
                  None \<Rightarrow> Inl invalid_pointer
                | Some name \<Rightarrow> Inr (ST_CONTINUE, AList.update name ary ret))))"

subsection \<open>The entry point\<close>

text \<open>
  Lines 145-170 of \<open>lineprof\<close>: the checks, the selector, the cleanup of the
  previous session and the flag. The exceptions are raised before anything is
  written.
\<close>

definition lineprof_enable :: "rblineprof_t \<Rightarrow> bool \<Rightarrow> VALUE \<Rightarrow> exception + fault + rblineprof_t" where
  "lineprof_enable st block_given selector =
     (if \<not> block_given then Inl (rb_raise rb_eArgError ''block required'')
      else if enabled st then Inl (rb_raise rb_eArgError ''profiler is already enabled'')
      else
        (case (case selector of
                 Str s \<Rightarrow> Some (st\<lparr>source_filename := Some s\<rparr>)
               | Regex m \<Rightarrow> Some (st\<lparr>source_regex := selector, source_filename := None\<rparr>)
               | _ \<Rightarrow> None) of
           None \<Rightarrow> Inl (rb_raise rb_eArgError ''argument must be String or Regexp'')
         | Some st1 \<Rightarrow>
             (case st_foreach (files st1) cleanup_files () of
                Inl flt \<Rightarrow> Inr (Inl flt)
              | Inr (tbl, _) \<Rightarrow>
                  (let st2 = st1\<lparr>files := tbl\<rparr>;
                       st3 = (if lines (file_data st2) \<noteq> None
                              then st2\<lparr>file_data := (file_data st2)\<lparr>lines := None, nlines := 0\<rparr>\<rparr>
                              else st2)
                   in Inr (Inr (st3\<lparr>enabled := True\<rparr>))))))"

text \<open>Lines 176-189: the report of the session.\<close>

definition lineprof_report :: "rblineprof_t \<Rightarrow> fault + report" where
  "lineprof_report st =
     (case source_filename st of
        Some name \<Rightarrow>
          (case lines_ary (file_data st) of
             Inl flt \<Rightarrow> Inl flt
           | Inr ary \<Rightarrow> Inr (AList.update name ary []))
      | None \<Rightarrow>
          (case st_foreach (files st) summarize_files [] of
             Inl flt \<Rightarrow> Inl flt
           | Inr (_, ret) \<Rightarrow> Inr ret))"

text \<open>
  \<open>lineprof\<close> (lines 142-190). The hook is installed while the block runs. An
  exception of the block leaves \<open>lineprof\<close> at \<open>rb_yield\<close>: nothing after it is
  executed, and the flag stays set.
\<close>

definition lineprof :: "rblineprof_t \<Rightarrow> bool \<Rightarrow> VALUE \<Rightarrow> block \<Rightarrow> outcome" where
  "lineprof st block_given selector blk =
     (case lineprof_enable st block_given selector of
        Inl exc \<Rightarrow> Raise exc st
      | Inr (Inl flt) \<Rightarrow> Crash flt
      | Inr (Inr st1) \<Rightarrow>
          (case run_events st1 (events blk) of
             Inl flt \<Rightarrow> Crash flt
           | Inr st2 \<Rightarrow>
               (case raises blk of
                  Some exc \<Rightarrow> Raise exc st2
                | None \<Rightarrow>
                    (let st3 = st2\<lparr>enabled := False\<rparr>
                     in case lineprof_report st3 of
                          Inl flt \<Rightarrow> Crash flt
                        | Inr ret \<Rightarrow> Return ret st3))))"

text \<open>The static initialiser of the struct and \<open>Init_rblineprof\<close> (lines 33-38, 203-212).\<close>

definition Init_rblineprof :: rblineprof_t where
  "Init_rblineprof =
     \<lparr>enabled = False, source_filename = None, file_data = calloc_sourcefile,
      source_regex = Qfalse, files = [], reg_search_log = []\<rparr>"

section \<open>Notions of the claims\<close>

text \<open>
  \<open>report[f]\<close> and \<open>report[f][i]\<close> of the report a call returns; there is none when
  the call does not return, when the key is absent and when the index is beyond the
  sequence.
\<close>

definition reported :: "outcome \<Rightarrow> string \<Rightarrow> nat list option" where
  "reported out f = (case out of Return ret _ \<Rightarrow> map_of ret f | _ \<Rightarrow> None)"

definition reported_line :: "outcome \<Rightarrow> string \<Rightarrow> nat \<Rightarrow> nat option" where
  "reported_line out f i =
     (case reported out f of
        Some ary \<Rightarrow> if i < length ary then Some (ary ! i) else None
      | None \<Rightarrow> None)"

text \<open>A line event whose heap, should the hook grow an array, holds zeros.\<close>

abbreviation line_event :: "string \<Rightarrow> nat \<Rightarrow> uint64_t \<Rightarrow> event" where
  "line_event f l t \<equiv> \<lparr>ev_file = f, ev_line = l, ev_now = t, ev_heap = (\<lambda>_. 0)\<rparr>"

text \<open>A block that fires the given events and returns.\<close>

abbreviation returning :: "event list \<Rightarrow> block" where
  "returning evs \<equiv> \<lparr>events = evs, raises = None\<rparr>"

text \<open>
  The worked example of the specification with its clock readings shifted by \<open>T\<close>:
  file \<open>a\<close>, line 1 at \<open>T\<close>, line 2 at \<open>T + 1000\<close>, line 1 at \<open>T + 2500\<close>, line 3 at
  \<open>T + 3000\<close>.
\<close>

definition worked_example :: "uint64_t \<Rightarrow> (nat \<Rightarrow> uint64_t) \<Rightarrow> block" where
  "worked_example T h =
     returning [\<lparr>ev_file = ''a'', ev_line = 1, ev_now = T, ev_heap = h\<rparr>,
                \<lparr>ev_file = ''a'', ev_line = 2, ev_now = T + 1000, ev_heap = h\<rparr>,
                \<lparr>ev_file = ''a'', ev_line = 1, ev_now = T + 2500, ev_heap = h\<rparr>,
                \<lparr>ev_file = ''a'', ev_line = 3, ev_now = T + 3000, ev_heap = h\<rparr>]"

text \<open>
  Three events of file \<open>a\<close>, on lines 1, 2 and 150 at clock readings 1, 2 and 3; the
  third finds 7 in every slot of the memory behind the block it grows.
\<close>

definition regrow_example :: block where
  "regrow_example =
     returning [line_event ''a'' 1 1, line_event ''a'' 2 2,
                \<lparr>ev_file = ''a'', ev_line = 150, ev_now = 3, ev_heap = (\<lambda>_. 7)\<rparr>]"

text \<open>
  The file names a selector leaves untracked: in single file mode every name but the
  configured one, in regex mode every name the regexp does not match.
\<close>

fun rejects :: "VALUE \<Rightarrow> string \<Rightarrow> bool" where
  "rejects (Str s) f = (f \<noteq> s)"
| "rejects (Regex m) f = (\<not> m f)"
| "rejects _ f = False"

text \<open>
  The cross-file example of the specification with its clock readings shifted by \<open>T\<close>:
  file \<open>a\<close> line 1 at \<open>T\<close>, file \<open>b\<close> line 9 at \<open>T + 500\<close>, file \<open>a\<close> line 2 at
  \<open>T + 900\<close>.
\<close>

definition cross_file_example :: "uint64_t \<Rightarrow> (nat \<Rightarrow> uint64_t) \<Rightarrow> event list" where
  "cross_file_example T h =
     [\<lparr>ev_file = ''a'', ev_line = 1, ev_now = T, ev_heap = h\<rparr>,
      \<lparr>ev_file = ''b'', ev_line = 9, ev_now = T + 500, ev_heap = h\<rparr>,
      \<lparr>ev_file = ''a'', ev_line = 2, ev_now = T + 900, ev_heap = h\<rparr>]"

text \<open>The file names a selector tracks.\<close>

fun tracks :: "VALUE \<Rightarrow> string \<Rightarrow> bool" where
  "tracks (Str s) f = (f = s)"
| "tracks (Regex m) f = m f"
| "tracks _ f = False"

text \<open>
  The time on record in a line-time array, as a natural number: the sum of its slots.
\<close>

definition billed :: "sourcefile_t \<Rightarrow> nat" where
  "billed sf = (case lines sf of None \<Rightarrow> 0 | Some a \<Rightarrow> sum_list (map unat a))"

text \<open>An allocated array has \<open>nlines\<close> slots.\<close>

definition table_sized :: "sourcefile_t \<Rightarrow> bool" where
  "table_sized sf = (case lines sf of None \<Rightarrow> True | Some a \<Rightarrow> length a = nlines sf)"

text \<open>
  The tracking record the hook resolves for a file name, if there is one: the single
  file table, or the record of the pointer entry of the table.
\<close>

definition tracked :: "rblineprof_t \<Rightarrow> string \<Rightarrow> sourcefile_t option" where
  "tracked st f =
     (case source_filename st of
        Some s \<Rightarrow> if s = f then Some (file_data st) else None
      | None \<Rightarrow>
          (case st_lookup (files st) f of
             Some (Pointer sf) \<Rightarrow> Some sf
           | _ \<Rightarrow> None))"

text \<open>
  A tracked file before its first event of a session: the single file table has no
  event on record and no array, or the table has no entry for the name yet.
\<close>

definition untouched :: "rblineprof_t \<Rightarrow> string \<Rightarrow> bool" where
  "untouched st f =
     (case source_filename st of
        Some s \<Rightarrow> s = f \<and> last_time (file_data st) = 0 \<and> lines (file_data st) = None
      | None \<Rightarrow>
          (case source_regex st of Regex m \<Rightarrow> m f | _ \<Rightarrow> False) \<and>
          st_lookup (files st) f = None)"

section \<open>Lemmas\<close>

lemmas lineprof_defs =
  lineprof_def lineprof_enable_def lineprof_report_def Init_rblineprof_def
  calloc_sourcefile_def cleanup_files_def summarize_files_def lines_ary_def
  profiler_hook_def record_sample_def calloc_def realloc_def
  st_lookup_def st_insert_def rb_reg_search_def

subsection \<open>The cleanup of the table\<close>

lemma cleanup_all_pointers:
  "Qnil_record \<notin> snd ` set tbl \<Longrightarrow> st_foreach tbl cleanup_files () = Inr ([], ())"
proof (induction tbl)
  case Nil
  show ?case by simp
next
  case (Cons p tbl)
  obtain k r where p: "p = (k, r)" by (cases p)
  from Cons.prems p obtain sf where r: "r = Pointer sf"
    by (cases r) auto
  from Cons show ?case by (simp add: p r cleanup_files_def)
qed

lemma cleanup_result:
  "st_foreach tbl cleanup_files () = Inr (tbl', u) \<Longrightarrow> tbl' = []"
proof (induction tbl)
  case Nil
  then show ?case by simp
next
  case (Cons p tbl)
  obtain k r where p: "p = (k, r)" by (cases p)
  show ?case
  proof (cases r)
    case Qnil_record
    with Cons.prems p show ?thesis by (simp add: cleanup_files_def)
  next
    case (Pointer sf)
    with Cons p show ?thesis by (simp add: cleanup_files_def)
  qed
qed

lemma enable_Str:
  assumes "\<not> enabled st" and "Qnil_record \<notin> snd ` set (files st)"
  shows "lineprof_enable st True (Str s) =
     Inr (Inr (st\<lparr>source_filename := Some s, files := [],
                  file_data := (if lines (file_data st) \<noteq> None
                                then (file_data st)\<lparr>lines := None, nlines := 0\<rparr>
                                else file_data st),
                  enabled := True\<rparr>))"
  using assms by (simp add: lineprof_enable_def cleanup_all_pointers Let_def)

subsection \<open>The cases of the hook\<close>

lemma record_sample_filename:
  "record_sample sf e = Inr sf' \<Longrightarrow> filename sf' = filename sf"
  by (auto simp: record_sample_def Let_def split: if_splits option.splits)

lemma hook_single_other:
  "source_filename st = Some s \<Longrightarrow> ev_file e \<noteq> s \<Longrightarrow> profiler_hook st e = Inr st"
  by (auto simp: profiler_hook_def)

lemma hook_single_same:
  "source_filename st = Some s \<Longrightarrow> ev_file e = s \<Longrightarrow>
   profiler_hook st e =
     (case record_sample ((file_data st)\<lparr>filename := Some s\<rparr>) e of
        Inl flt \<Rightarrow> Inl flt
      | Inr sf \<Rightarrow> Inr (st\<lparr>file_data := sf\<rparr>))"
  by (auto simp: profiler_hook_def)

lemma update_absent:
  "k \<notin> fst ` set al \<Longrightarrow> AList.update k v al = al @ [(k, v)]"
  by (induction al) auto

lemma hook_negative:
  "source_filename st = None \<Longrightarrow> st_lookup (files st) (ev_file e) = Some Qnil_record \<Longrightarrow>
   profiler_hook st e = Inr st"
  by (simp add: profiler_hook_def)

lemma hook_known:
  "source_filename st = None \<Longrightarrow> st_lookup (files st) (ev_file e) = Some (Pointer sf0) \<Longrightarrow>
   profiler_hook st e =
     (case record_sample sf0 e of
        Inl flt \<Rightarrow> Inl flt
      | Inr sf \<Rightarrow> Inr (st\<lparr>files := st_insert (files st) (ev_file e) (Pointer sf)\<rparr>))"
  by (simp add: profiler_hook_def)

lemma hook_unknown_no_match:
  assumes "source_filename st = None" and "st_lookup (files st) (ev_file e) = None"
    and "source_regex st = Regex m" and "\<not> m (ev_file e)"
  shows "profiler_hook st e =
     Inr (st\<lparr>reg_search_log := reg_search_log st @ [ev_file e],
             files := files st @ [(ev_file e, Qnil_record)]\<rparr>)"
proof -
  from assms(2) have "ev_file e \<notin> fst ` set (files st)"
    by (simp add: st_lookup_def map_of_eq_None_iff)
  then have "AList.update (ev_file e) Qnil_record (files st) = files st @ [(ev_file e, Qnil_record)]"
    by (rule update_absent)
  with assms show ?thesis
    by (simp add: profiler_hook_def rb_reg_search_def st_insert_def)
qed

lemma hook_unknown_match:
  assumes "source_filename st = None" and "st_lookup (files st) (ev_file e) = None"
    and "source_regex st = Regex m" and "m (ev_file e)"
  shows "profiler_hook st e =
     Inr (st\<lparr>reg_search_log := reg_search_log st @ [ev_file e],
             files := files st @
               [(ev_file e, Pointer \<lparr>filename = Some (ev_file e), lines = None, nlines = 0,
                                      last_time = ev_now e, last_line = ev_line e\<rparr>)]\<rparr>)"
proof -
  from assms(2) have "ev_file e \<notin> fst ` set (files st)"
    by (simp add: st_lookup_def map_of_eq_None_iff)
  then have "\<And>r. AList.update (ev_file e) r (files st) = files st @ [(ev_file e, r)]"
    by (rule update_absent)
  with assms show ?thesis
    by (simp add: profiler_hook_def rb_reg_search_def st_insert_def record_sample_def
        calloc_sourcefile_def)
qed

lemma hook_frame:
  "profiler_hook st e = Inr st' \<Longrightarrow>
   source_filename st' = source_filename st \<and> source_regex st' = source_regex st \<and>
   enabled st' = enabled st"
  by (auto simp: profiler_hook_def Let_def split: option.splits if_splits st_record.splits sum.splits)

lemma run_frame:
  "run_events st evs = Inr st' \<Longrightarrow>
   source_filename st' = source_filename st \<and> source_regex st' = source_regex st \<and>
   enabled st' = enabled st"
proof (induction evs arbitrary: st)
  case Nil
  then show ?case by simp
next
  case (Cons e evs)
  from Cons.prems obtain st1 where h: "profiler_hook st e = Inr st1" and r: "run_events st1 evs = Inr st'"
    by (auto split: sum.splits)
  from Cons.IH [OF r] hook_frame [OF h] show ?case by simp
qed

lemma set_update_cases:
  "(k', v') \<in> set (AList.update k v al) \<Longrightarrow> (k', v') = (k, v) \<or> (k', v') \<in> set al"
  by (induction al) (auto split: if_splits)

text \<open>
  A pointer entry of the table belongs to regex mode and to a file the regexp matches,
  and its record is named by its key.
\<close>

lemma hook_pointers:
  assumes sel: "case source_filename st of Some s \<Rightarrow> True | None \<Rightarrow> source_regex st = Regex m"
    and inv: "\<forall>k sf. (k, Pointer sf) \<in> set (files st) \<longrightarrow> source_filename st = None \<and> m k \<and> filename sf = Some k"
    and h: "profiler_hook st e = Inr st'"
  shows "\<forall>k sf. (k, Pointer sf) \<in> set (files st') \<longrightarrow> source_filename st' = None \<and> m k \<and> filename sf = Some k"
proof (cases "source_filename st")
  case (Some s)
  with h have "files st' = files st" "source_filename st' = source_filename st"
    by (auto simp: profiler_hook_def split: if_splits sum.splits)
  with inv show ?thesis by simp
next
  case None
  with sel have re: "source_regex st = Regex m" by simp
  from hook_frame [OF h] None have sf': "source_filename st' = None" by simp
  show ?thesis
  proof (cases "st_lookup (files st) (ev_file e)")
    case lookup: None
    show ?thesis
    proof (cases "m (ev_file e)")
      case True
      from h hook_unknown_match [OF None lookup re True] inv None True show ?thesis by auto
    next
      case False
      from h hook_unknown_no_match [OF None lookup re False] inv None show ?thesis by auto
    qed
  next
    case (Some r)
    show ?thesis
    proof (cases r)
      case Qnil_record
      with h hook_negative [OF None] Some inv show ?thesis by simp
    next
      case (Pointer sf0)
      with Some have lk: "st_lookup (files st) (ev_file e) = Some (Pointer sf0)" by simp
      then have mem: "(ev_file e, Pointer sf0) \<in> set (files st)"
        by (simp add: st_lookup_def map_of_SomeD)
      from h hook_known [OF None lk] obtain sf where
        rs: "record_sample sf0 e = Inr sf" and
        st': "st' = st\<lparr>files := st_insert (files st) (ev_file e) (Pointer sf)\<rparr>"
        by (auto split: sum.splits)
      from record_sample_filename [OF rs] mem inv
      have new: "m (ev_file e) \<and> filename sf = Some (ev_file e)" by auto
      show ?thesis
      proof (intro allI impI)
        fix k sf1 assume "(k, Pointer sf1) \<in> set (files st')"
        with st' have "(k, Pointer sf1) \<in> set (AList.update (ev_file e) (Pointer sf) (files st))"
          by (simp add: st_insert_def)
        from set_update_cases [OF this] new inv None sf'
        show "source_filename st' = None \<and> m k \<and> filename sf1 = Some k" by auto
      qed
    qed
  qed
qed


lemma run_pointers:
  assumes "case source_filename st of Some s \<Rightarrow> True | None \<Rightarrow> source_regex st = Regex m"
    and "\<forall>k sf. (k, Pointer sf) \<in> set (files st) \<longrightarrow> source_filename st = None \<and> m k \<and> filename sf = Some k"
    and "run_events st evs = Inr st'"
  shows "\<forall>k sf. (k, Pointer sf) \<in> set (files st') \<longrightarrow> source_filename st' = None \<and> m k \<and> filename sf = Some k"
  using assms
proof (induction evs arbitrary: st)
  case Nil
  then show ?case by simp
next
  case (Cons e evs)
  from Cons.prems(3) obtain st1 where h: "profiler_hook st e = Inr st1"
    and r: "run_events st1 evs = Inr st'"
    by (auto split: sum.splits)
  from hook_frame [OF h] Cons.prems(1)
  have sel: "case source_filename st1 of Some s \<Rightarrow> True | None \<Rightarrow> source_regex st1 = Regex m"
    by (simp split: option.splits)
  from hook_pointers [OF Cons.prems(1) Cons.prems(2) h] Cons.IH [OF sel _ r]
  show ?case by blast
qed

lemma enable_started:
  assumes "lineprof_enable st bg selector = Inr (Inr st1)"
  shows "files st1 = [] \<and> enabled st1 \<and> reg_search_log st1 = reg_search_log st \<and>
         (case selector of
            Str s \<Rightarrow> source_filename st1 = Some s
          | Regex m \<Rightarrow> source_filename st1 = None \<and> source_regex st1 = Regex m
          | _ \<Rightarrow> False)"
  using assms
  by (cases selector)
     (auto simp: lineprof_enable_def Let_def split: if_splits sum.splits prod.splits
           dest: cleanup_result)

lemma summarize_Cons:
  "st_foreach ((k, r) # tbl) summarize_files ret =
     (case r of
        Qnil_record \<Rightarrow> Inl invalid_pointer
      | Pointer sf \<Rightarrow>
          (case lines_ary sf of
             Inl flt \<Rightarrow> Inl flt
           | Inr ary \<Rightarrow>
               (case filename sf of
                  None \<Rightarrow> Inl invalid_pointer
                | Some n \<Rightarrow>
                    (case st_foreach tbl summarize_files (AList.update n ary ret) of
                       Inl flt \<Rightarrow> Inl flt
                     | Inr (t, ret') \<Rightarrow> Inr ((k, r) # t, ret')))))"
  by (simp add: summarize_files_def split: st_record.splits sum.splits option.splits)

lemma summarize_keys:
  "st_foreach tbl summarize_files ret = Inr (tbl', ret') \<Longrightarrow>
   fst ` set ret' \<subseteq> fst ` set ret \<union> {n. \<exists>k sf. (k, Pointer sf) \<in> set tbl \<and> filename sf = Some n}"
proof (induction tbl arbitrary: ret tbl' ret')
  case Nil
  then show ?case by simp
next
  case (Cons p tbl)
  obtain k r where p: "p = (k, r)" by (cases p)
  from Cons.prems obtain sf ary n t2 where r: "r = Pointer sf" and n: "filename sf = Some n"
    and rest: "st_foreach tbl summarize_files (AList.update n ary ret) = Inr (t2, ret')"
    unfolding p summarize_Cons
    by (auto split: st_record.splits sum.splits option.splits prod.splits)
  from Cons.IH [OF rest] have
    "fst ` set ret' \<subseteq> fst ` set (AList.update n ary ret) \<union>
       {n. \<exists>k sf. (k, Pointer sf) \<in> set tbl \<and> filename sf = Some n}" .
  moreover have "fst ` set (AList.update n ary ret) = {n} \<union> fst ` set ret"
    by (rule dom_update)
  ultimately have "fst ` set ret' \<subseteq> fst ` set ret \<union> ({n} \<union>
       {n. \<exists>k sf. (k, Pointer sf) \<in> set tbl \<and> filename sf = Some n})"
    by blast
  moreover have "{n} \<union> {n. \<exists>k sf. (k, Pointer sf) \<in> set tbl \<and> filename sf = Some n}
      \<subseteq> {n. \<exists>k sf. (k, Pointer sf) \<in> set (p # tbl) \<and> filename sf = Some n}"
    using p r n by fastforce
  ultimately show ?case by blast
qed

subsection \<open>Keys of the table and the log of regexp searches\<close>

lemma hook_single_files:
  "source_filename st = Some s \<Longrightarrow> profiler_hook st e = Inr st' \<Longrightarrow>
   files st' = files st \<and> reg_search_log st' = reg_search_log st"
  by (auto simp: profiler_hook_def split: if_splits sum.splits)

lemma hook_unknown_not_regexp:
  "source_filename st = None \<Longrightarrow> st_lookup (files st) (ev_file e) = None \<Longrightarrow>
   \<forall>m. source_regex st \<noteq> Regex m \<Longrightarrow> profiler_hook st e = Inl not_a_regexp"
  by (cases "source_regex st") (simp_all add: profiler_hook_def rb_reg_search_def)

lemma hook_log:
  assumes h: "profiler_hook st e = Inr st'"
  shows "fst ` set (files st) \<subseteq> fst ` set (files st') \<and>
         fst ` set (files st') \<subseteq> insert (ev_file e) (fst ` set (files st)) \<and>
         (reg_search_log st' = reg_search_log st \<or>
          reg_search_log st' = reg_search_log st @ [ev_file e] \<and>
          ev_file e \<notin> fst ` set (files st) \<and> ev_file e \<in> fst ` set (files st'))"
proof (cases "source_filename st")
  case (Some s)
  from hook_single_files [OF Some h] show ?thesis by auto
next
  case None
  show ?thesis
  proof (cases "st_lookup (files st) (ev_file e)")
    case lookup: None
    then have absent: "ev_file e \<notin> fst ` set (files st)"
      by (simp add: st_lookup_def map_of_eq_None_iff)
    from h hook_unknown_not_regexp [OF None lookup] obtain m where re: "source_regex st = Regex m"
      by fastforce
    show ?thesis
    proof (cases "m (ev_file e)")
      case True
      from h hook_unknown_match [OF None lookup re True] absent show ?thesis by auto
    next
      case False
      from h hook_unknown_no_match [OF None lookup re False] absent show ?thesis by auto
    qed
  next
    case (Some r)
    then have present: "ev_file e \<in> fst ` set (files st)"
      by (metis map_of_eq_None_iff option.distinct(1) st_lookup_def)
    show ?thesis
    proof (cases r)
      case Qnil_record
      with h hook_negative [OF None] Some show ?thesis by auto
    next
      case (Pointer sf0)
      with Some h hook_known [OF None, of e sf0] obtain sf where
        "st' = st\<lparr>files := st_insert (files st) (ev_file e) (Pointer sf)\<rparr>"
        by (auto split: sum.splits)
      then have "files st' = AList.update (ev_file e) (Pointer sf) (files st)"
        "reg_search_log st' = reg_search_log st"
        by (simp_all add: st_insert_def)
      moreover have "fst ` set (AList.update (ev_file e) (Pointer sf) (files st)) = {ev_file e} \<union> fst ` set (files st)"
        by (rule dom_update)
      ultimately show ?thesis using present by auto
    qed
  qed
qed

lemma run_log:
  "run_events st evs = Inr st' \<Longrightarrow>
   \<exists>new. reg_search_log st' = reg_search_log st @ new \<and> distinct new \<and>
         set new \<inter> fst ` set (files st) = {} \<and>
         fst ` set (files st) \<union> set new \<subseteq> fst ` set (files st')"
proof (induction evs arbitrary: st)
  case Nil
  then show ?case by simp
next
  case (Cons e evs)
  from Cons.prems obtain st1 where h: "profiler_hook st e = Inr st1"
    and r: "run_events st1 evs = Inr st'"
    by (auto split: sum.splits)
  define K K1 K' where "K = fst ` set (files st)" and "K1 = fst ` set (files st1)"
    and "K' = fst ` set (files st')"
  from Cons.IH [OF r] obtain new1 where
    n1: "reg_search_log st' = reg_search_log st1 @ new1" "distinct new1"
      "set new1 \<inter> K1 = {}" "K1 \<union> set new1 \<subseteq> K'"
    unfolding K1_def K'_def by blast
  from hook_log [OF h] have sub: "K \<subseteq> K1" unfolding K_def K1_def by simp
  from hook_log [OF h] consider
    (same) "reg_search_log st1 = reg_search_log st"
  | (searched) "reg_search_log st1 = reg_search_log st @ [ev_file e]"
      "ev_file e \<notin> K" "ev_file e \<in> K1"
    unfolding K_def K1_def by blast
  then have "\<exists>new. reg_search_log st' = reg_search_log st @ new \<and> distinct new \<and>
         set new \<inter> K = {} \<and> K \<union> set new \<subseteq> K'"
  proof cases
    case same
    have "set new1 \<inter> K = {}" "K \<union> set new1 \<subseteq> K'"
      using n1(3,4) sub by blast+
    moreover have "reg_search_log st' = reg_search_log st @ new1"
      using n1(1) same by simp
    ultimately show ?thesis using n1(2) by blast
  next
    case searched
    have "ev_file e \<notin> set new1"
      using n1(3) searched(3) by blast
    then have "distinct (ev_file e # new1)"
      using n1(2) by simp
    moreover have "set new1 \<inter> K = {}" "K \<union> set new1 \<subseteq> K'" "ev_file e \<in> K'"
      using n1(3,4) sub searched(3) by blast+
    then have "set (ev_file e # new1) \<inter> K = {}" "K \<union> set (ev_file e # new1) \<subseteq> K'"
      using searched(2) by simp_all
    moreover have "reg_search_log st' = reg_search_log st @ (ev_file e # new1)"
      using n1 searched by simp
    ultimately show ?thesis by blast
  qed
  then show ?case unfolding K_def K'_def .
qed

lemma count_list_distinct: "distinct xs \<Longrightarrow> count_list xs x \<le> 1"
  by (induction xs) auto

lemma count_list_absent: "x \<notin> set xs \<Longrightarrow> count_list xs x = 0"
  by (induction xs) auto

lemma run_single_ignored:
  "source_filename st = Some s \<Longrightarrow> s \<notin> ev_file ` set evs \<Longrightarrow> run_events st evs = Inr st"
  by (induction evs) (auto simp: hook_single_other)

lemma run_keys:
  "run_events st evs = Inr st' \<Longrightarrow> fst ` set (files st') \<subseteq> fst ` set (files st) \<union> ev_file ` set evs"
proof (induction evs arbitrary: st)
  case Nil
  then show ?case by simp
next
  case (Cons e evs)
  from Cons.prems obtain st1 where h: "profiler_hook st e = Inr st1"
    and r: "run_events st1 evs = Inr st'"
    by (auto split: sum.splits)
  from hook_log [OF h] have "fst ` set (files st1) \<subseteq> insert (ev_file e) (fst ` set (files st))"
    by simp
  with Cons.IH [OF r] have "fst ` set (files st') \<subseteq> insert (ev_file e) (fst ` set (files st)) \<union> ev_file ` set evs"
    by blast
  then show ?case by simp
qed

subsection \<open>Billing\<close>

lemma billed_filename [simp]: "billed (sf\<lparr>filename := x\<rparr>) = billed sf"
  by (simp add: billed_def)

lemma table_sized_filename [simp]: "table_sized (sf\<lparr>filename := x\<rparr>) = table_sized sf"
  by (simp add: table_sized_def split: option.splits)

lemma sum_list_unat_add:
  fixes d :: uint64_t
  assumes "i < length a" and "sum_list (map unat a) + unat d < 2 ^ 64"
  shows "sum_list (map unat (a[i := a ! i + d])) = sum_list (map unat a) + unat d"
proof -
  have "unat (a ! i) \<le> sum_list (map unat a)"
    using elem_le_sum_list [of i "map unat a"] assms(1) by simp
  with assms(2) have "unat (a ! i) + unat d < 2 ^ LENGTH(64)" by simp
  then have u: "unat (a ! i + d) = unat (a ! i) + unat d"
    by (simp only: unat_add_lem)
  have "sum_list (map unat (a[i := a ! i + d])) = sum_list ((map unat a)[i := unat (a ! i + d)])"
    by (simp add: map_update)
  also have "\<dots> = sum_list (map unat a) + unat (a ! i + d) - map unat a ! i"
    using assms(1) by (simp add: sum_list_update)
  also have "\<dots> = sum_list (map unat a) + unat d"
    using u assms(1) by simp
  finally show ?thesis .
qed

lemma realloc_zero_heap:
  assumes "\<forall>i. h i = 0" and "length a \<le> n"
  shows "realloc h (Some a) n = a @ replicate (n - length a) 0"
proof -
  from assms(1) have "h = (\<lambda>_. 0)" by auto
  then have "map h [length a..<n] = replicate (n - length a) 0"
    by (simp add: map_replicate_const)
  with assms(2) show ?thesis by (simp add: realloc_def)
qed

lemma sum_unat_zeros: "sum_list (map unat (replicate n (0 :: uint64_t))) = 0"
  by (induction n) simp_all

text \<open>The array the hook writes to, when the heap behind a grown block is zero.\<close>

lemma record_sample_write:
  assumes lt: "last_time sf \<noteq> 0" and heap0: "\<forall>i. ev_heap e i = 0" and sized: "table_sized sf"
  shows "\<exists>a. length a \<ge> (case lines sf of None \<Rightarrow> 0 | Some a0 \<Rightarrow> length a0) \<and>
             sum_list (map unat a) = billed sf \<and>
             record_sample sf e =
               (if last_line sf < length a
                then Inr (sf\<lparr>nlines := length a,
                             lines := Some (a[last_line sf := a ! last_line sf + (ev_now e - last_time sf)]),
                             last_time := ev_now e, last_line := ev_line e\<rparr>)
                else Inl out_of_bounds)"
proof (cases "lines sf")
  case None
  let ?a = "replicate (ev_line e + 100) (0 :: uint64_t)"
  have "record_sample sf e =
               (if last_line sf < length ?a
                then Inr (sf\<lparr>nlines := length ?a,
                             lines := Some (?a[last_line sf := ?a ! last_line sf + (ev_now e - last_time sf)]),
                             last_time := ev_now e, last_line := ev_line e\<rparr>)
                else Inl out_of_bounds)"
    using lt None by (simp add: record_sample_def calloc_def Let_def)
  moreover have "sum_list (map unat ?a) = billed sf"
    using None by (simp add: billed_def sum_unat_zeros)
  ultimately show ?thesis using None by (intro exI [of _ ?a]) simp
next
  case (Some a0)
  with sized have len: "length a0 = nlines sf" by (simp add: table_sized_def)
  show ?thesis
  proof (cases "ev_line e \<ge> nlines sf")
    case True
    let ?a = "a0 @ replicate (ev_line e + 100 - length a0) (0 :: uint64_t)"
    from True len have le: "length a0 \<le> ev_line e + 100" by simp
    from realloc_zero_heap [OF heap0 this]
    have re: "realloc (ev_heap e) (Some a0) (ev_line e + 100) = ?a" .
    have l: "length ?a = ev_line e + 100" using True len by simp
    have "record_sample sf e =
               (if last_line sf < length ?a
                then Inr (sf\<lparr>nlines := length ?a,
                             lines := Some (?a[last_line sf := ?a ! last_line sf + (ev_now e - last_time sf)]),
                             last_time := ev_now e, last_line := ev_line e\<rparr>)
                else Inl out_of_bounds)"
      using lt Some True re le by (simp add: record_sample_def Let_def)
    moreover have "sum_list (map unat ?a) = billed sf"
      using Some by (simp add: billed_def sum_unat_zeros)
    ultimately show ?thesis using Some by (intro exI [of _ ?a]) simp
  next
    case False
    have "sf\<lparr>nlines := length a0\<rparr> = sf" using len by simp
    then have "record_sample sf e =
               (if last_line sf < length a0
                then Inr (sf\<lparr>nlines := length a0,
                             lines := Some (a0[last_line sf := a0 ! last_line sf + (ev_now e - last_time sf)]),
                             last_time := ev_now e, last_line := ev_line e\<rparr>)
                else Inl out_of_bounds)"
      using lt Some False by (simp add: record_sample_def Let_def)
    moreover have "sum_list (map unat a0) = billed sf"
      using Some by (simp add: billed_def)
    ultimately show ?thesis using Some by (intro exI [of _ a0]) simp
  qed
qed

lemma record_sample_bills:
  assumes rs: "record_sample sf e = Inr sf'" and lt: "last_time sf \<noteq> 0"
    and mono: "last_time sf < ev_now e" and heap0: "\<forall>i. ev_heap e i = 0"
    and sized: "table_sized sf" and bound: "billed sf \<le> unat (last_time sf)"
  shows "table_sized sf' \<and> last_time sf' = ev_now e \<and>
         billed sf' + unat (last_time sf) = billed sf + unat (ev_now e)"
proof -
  let ?d = "ev_now e - last_time sf"
  from mono have d: "unat ?d = unat (ev_now e) - unat (last_time sf)"
    and le: "unat (last_time sf) \<le> unat (ev_now e)"
    by (simp_all add: unat_sub word_less_nat_alt word_le_nat_alt)
  from record_sample_write [OF lt heap0 sized] obtain a where
    a: "sum_list (map unat a) = billed sf"
    and w: "record_sample sf e =
               (if last_line sf < length a
                then Inr (sf\<lparr>nlines := length a,
                             lines := Some (a[last_line sf := a ! last_line sf + ?d]),
                             last_time := ev_now e, last_line := ev_line e\<rparr>)
                else Inl out_of_bounds)"
    by blast
  from rs w have i: "last_line sf < length a"
    and sf': "sf' = sf\<lparr>nlines := length a,
                             lines := Some (a[last_line sf := a ! last_line sf + ?d]),
                             last_time := ev_now e, last_line := ev_line e\<rparr>"
    by (auto split: if_splits)
  have "unat (ev_now e) < 2 ^ 64"
    using unsigned_less [of "ev_now e"] by simp
  with a bound d le have "sum_list (map unat a) + unat ?d < 2 ^ 64" by simp
  from sum_list_unat_add [OF i this] a
  have "billed sf' = billed sf + unat ?d" by (simp add: sf' billed_def)
  with d le show ?thesis by (simp add: sf' table_sized_def)
qed

lemma hook_lookup_other:
  assumes "ev_file e \<noteq> f" and h: "profiler_hook st e = Inr st'"
  shows "st_lookup (files st') f = st_lookup (files st) f"
proof (cases "source_filename st")
  case (Some s)
  from hook_single_files [OF Some h] show ?thesis by simp
next
  case None
  show ?thesis
  proof (cases "st_lookup (files st) (ev_file e)")
    case lookup: None
    from h hook_unknown_not_regexp [OF None lookup] obtain m where re: "source_regex st = Regex m"
      by fastforce
    show ?thesis
    proof (cases "m (ev_file e)")
      case True
      from h hook_unknown_match [OF None lookup re True] assms(1) show ?thesis
        by (auto simp: st_lookup_def map_add_def split: option.splits)
    next
      case False
      from h hook_unknown_no_match [OF None lookup re False] assms(1) show ?thesis
        by (auto simp: st_lookup_def map_add_def split: option.splits)
    qed
  next
    case (Some r)
    show ?thesis
    proof (cases r)
      case Qnil_record
      with h hook_negative [OF None] Some show ?thesis by auto
    next
      case (Pointer sf0)
      with Some h hook_known [OF None, of e sf0] obtain sf where
        "st' = st\<lparr>files := st_insert (files st) (ev_file e) (Pointer sf)\<rparr>"
        by (auto split: sum.splits)
      with assms(1) show ?thesis
        by (simp add: st_insert_def st_lookup_def update_conv')
    qed
  qed
qed

lemma hook_other_file:
  assumes "ev_file e \<noteq> f" and h: "profiler_hook st e = Inr st'"
  shows "tracked st' f = tracked st f" and "untouched st f \<Longrightarrow> untouched st' f"
proof -
  note fr = hook_frame [OF h] and lk = hook_lookup_other [OF assms]
  show "tracked st' f = tracked st f"
  proof (cases "source_filename st")
    case None
    with fr lk show ?thesis by (simp add: tracked_def)
  next
    case (Some s)
    show ?thesis
    proof (cases "s = f")
      case True
      with Some assms(1) hook_single_other [of st s e] h have "st' = st" by simp
      then show ?thesis by simp
    next
      case False
      with Some fr show ?thesis by (simp add: tracked_def)
    qed
  qed
  assume u: "untouched st f"
  show "untouched st' f"
  proof (cases "source_filename st")
    case None
    with fr lk u show ?thesis by (simp add: untouched_def)
  next
    case (Some s)
    with u have "s = f" by (simp add: untouched_def)
    with Some assms(1) hook_single_other [of st s e] h have "st' = st" by simp
    with u show ?thesis by simp
  qed
qed

lemma hook_same_file:
  assumes e: "ev_file e = f" and t: "tracked st f = Some sf" and h: "profiler_hook st e = Inr st'"
  shows "\<exists>x sf'. record_sample (sf\<lparr>filename := x\<rparr>) e = Inr sf' \<and> tracked st' f = Some sf'"
proof (cases "source_filename st")
  case (Some s)
  with t have s: "s = f" and sf: "sf = file_data st"
    by (auto simp: tracked_def split: if_splits)
  from h hook_single_same [OF Some, of e] e s obtain sf' where
    "record_sample ((file_data st)\<lparr>filename := Some f\<rparr>) e = Inr sf'" "st' = st\<lparr>file_data := sf'\<rparr>"
    by (auto split: sum.splits)
  with Some s sf show ?thesis by (auto simp: tracked_def)
next
  case None
  with t have lk: "st_lookup (files st) (ev_file e) = Some (Pointer sf)"
    by (auto simp: tracked_def e split: option.splits st_record.splits)
  from h hook_known [OF None lk] obtain sf' where
    rs: "record_sample sf e = Inr sf'"
    and st': "st' = st\<lparr>files := st_insert (files st) (ev_file e) (Pointer sf')\<rparr>"
    by (auto split: sum.splits)
  have "sf\<lparr>filename := filename sf\<rparr> = sf" by simp
  with rs have "record_sample (sf\<lparr>filename := filename sf\<rparr>) e = Inr sf'" by simp
  moreover from st' None e have "tracked st' f = Some sf'"
    by (simp add: tracked_def st_insert_def st_lookup_def update_conv')
  ultimately show ?thesis by blast
qed

lemma hook_first_event:
  assumes e: "ev_file e = f" and u: "untouched st f"
  shows "\<exists>st' sf'. profiler_hook st e = Inr st' \<and> tracked st' f = Some sf' \<and>
           lines sf' = None \<and> last_time sf' = ev_now e"
proof (cases "source_filename st")
  case (Some s)
  with u have s: "s = f" and z: "last_time (file_data st) = 0" "lines (file_data st) = None"
    by (simp_all add: untouched_def)
  from z have "record_sample ((file_data st)\<lparr>filename := Some f\<rparr>) e =
      Inr ((file_data st)\<lparr>filename := Some f, last_time := ev_now e, last_line := ev_line e\<rparr>)"
    by (simp add: record_sample_def)
  with hook_single_same [OF Some, of e] e s
  have "profiler_hook st e =
      Inr (st\<lparr>file_data := (file_data st)\<lparr>filename := Some f, last_time := ev_now e, last_line := ev_line e\<rparr>\<rparr>)"
    by simp
  with Some s z show ?thesis by (simp add: tracked_def)
next
  case None
  with u obtain m where re: "source_regex st = Regex m" and m: "m (ev_file e)"
    and lk: "st_lookup (files st) (ev_file e) = None"
    by (auto simp: untouched_def e split: VALUE.splits)
  from lk have "map_of (files st) f = None" by (simp add: st_lookup_def e)
  with hook_unknown_match [OF None lk re m] None e show ?thesis
    by (simp add: tracked_def st_lookup_def map_add_def)
qed

lemma run_bills:
  assumes "run_events st evs = Inr st'" and "tracked st f = Some sf"
    and "last_time sf \<noteq> 0" and "table_sized sf" and "billed sf \<le> unat (last_time sf)"
    and "sorted_wrt (<) (map ev_now (filter (\<lambda>e. ev_file e = f) evs))"
    and "\<forall>e\<in>set (filter (\<lambda>e. ev_file e = f) evs). last_time sf < ev_now e"
    and "\<forall>e\<in>set (filter (\<lambda>e. ev_file e = f) evs). \<forall>i. ev_heap e i = 0"
  shows "\<exists>sf'. tracked st' f = Some sf' \<and> table_sized sf' \<and>
           last_time sf' = (if filter (\<lambda>e. ev_file e = f) evs = [] then last_time sf
                            else ev_now (last (filter (\<lambda>e. ev_file e = f) evs))) \<and>
           billed sf' + unat (last_time sf) = billed sf + unat (last_time sf')"
  using assms
proof (induction evs arbitrary: st sf)
  case Nil
  then show ?case by simp
next
  case (Cons e evs)
  from Cons.prems(1) obtain st1 where h: "profiler_hook st e = Inr st1"
    and r: "run_events st1 evs = Inr st'"
    by (auto split: sum.splits)
  show ?case
  proof (cases "ev_file e = f")
    case False
    from hook_other_file(1) [OF False h] Cons.prems(2) have t1: "tracked st1 f = Some sf" by simp
    have flt: "filter (\<lambda>e. ev_file e = f) (e # evs) = filter (\<lambda>e. ev_file e = f) evs"
      using False by simp
    from Cons.IH [OF r t1 Cons.prems(3,4,5) Cons.prems(6,7,8) [unfolded flt]]
    show ?thesis unfolding flt .
  next
    case True
    let ?tr = "filter (\<lambda>e. ev_file e = f) evs"
    from hook_same_file [OF True Cons.prems(2) h] obtain x sf1 where
      rs: "record_sample (sf\<lparr>filename := x\<rparr>) e = Inr sf1" and t1: "tracked st1 f = Some sf1"
      by blast
    from Cons.prems(7) True have mono: "last_time sf < ev_now e" by simp
    from Cons.prems(8) True have heap0: "\<forall>i. ev_heap e i = 0" by simp
    from record_sample_bills [OF rs] Cons.prems(3,4,5) mono heap0
    have b1: "table_sized sf1" "last_time sf1 = ev_now e"
      "billed sf1 + unat (last_time sf) = billed sf + unat (ev_now e)"
      by simp_all
    from mono have nz: "last_time sf1 \<noteq> 0" and le: "unat (last_time sf) \<le> unat (ev_now e)"
      using b1(2) by (auto simp: word_less_nat_alt)
    from b1(3) Cons.prems(5) b1(2) have bound1: "billed sf1 \<le> unat (last_time sf1)" by simp
    from Cons.prems(6) True have sorted1: "sorted_wrt (<) (map ev_now ?tr)"
      and later: "\<forall>e'\<in>set ?tr. last_time sf1 < ev_now e'"
      using b1(2) by auto
    from Cons.prems(8) have heap1: "\<forall>e\<in>set ?tr. \<forall>i. ev_heap e i = 0" by simp
    from Cons.IH [OF r t1 nz b1(1) bound1 sorted1 later heap1] obtain sf' where
      s': "tracked st' f = Some sf'" "table_sized sf'"
        "last_time sf' = (if ?tr = [] then last_time sf1 else ev_now (last ?tr))"
        "billed sf' + unat (last_time sf1) = billed sf1 + unat (last_time sf')"
      by blast
    from s'(3) True b1(2)
    have "last_time sf' = ev_now (last (filter (\<lambda>e. ev_file e = f) (e # evs)))" by simp
    moreover from s'(4) b1(2,3) have "billed sf' + unat (last_time sf) = billed sf + unat (last_time sf')"
      by simp
    ultimately show ?thesis using s'(1,2) True by simp
  qed
qed

lemma run_conservation:
  assumes "run_events st evs = Inr st'" and "untouched st f"
    and "filter (\<lambda>e. ev_file e = f) evs \<noteq> []"
    and "sorted_wrt (<) (map ev_now (filter (\<lambda>e. ev_file e = f) evs))"
    and "ev_now (hd (filter (\<lambda>e. ev_file e = f) evs)) \<noteq> 0"
    and "\<forall>e\<in>set (filter (\<lambda>e. ev_file e = f) evs). \<forall>i. ev_heap e i = 0"
  shows "\<exists>sf'. tracked st' f = Some sf' \<and> table_sized sf' \<and>
           billed sf' + unat (ev_now (hd (filter (\<lambda>e. ev_file e = f) evs)))
             = unat (ev_now (last (filter (\<lambda>e. ev_file e = f) evs)))"
  using assms
proof (induction evs arbitrary: st)
  case Nil
  then show ?case by simp
next
  case (Cons e evs)
  show ?case
  proof (cases "ev_file e = f")
    case False
    from Cons.prems(1) obtain st1 where h: "profiler_hook st e = Inr st1"
      and r: "run_events st1 evs = Inr st'"
      by (auto split: sum.splits)
    from hook_other_file(2) [OF False h Cons.prems(2)] have u1: "untouched st1 f" .
    have flt: "filter (\<lambda>e. ev_file e = f) (e # evs) = filter (\<lambda>e. ev_file e = f) evs"
      using False by simp
    from Cons.IH [OF r u1 Cons.prems(3,4,5,6) [unfolded flt]]
    show ?thesis unfolding flt .
  next
    case True
    let ?tr = "filter (\<lambda>e. ev_file e = f) evs"
    from hook_first_event [OF True Cons.prems(2)] obtain st1 sf1 where
      h: "profiler_hook st e = Inr st1" and t1: "tracked st1 f = Some sf1"
      and l1: "lines sf1 = None" and lt1: "last_time sf1 = ev_now e"
      by blast
    from Cons.prems(1) h have r: "run_events st1 evs = Inr st'" by simp
    from Cons.prems(5) True lt1 have nz: "last_time sf1 \<noteq> 0" by simp
    from l1 have sized: "table_sized sf1" and b0: "billed sf1 = 0"
      by (simp_all add: table_sized_def billed_def)
    from Cons.prems(4) True lt1 have sorted1: "sorted_wrt (<) (map ev_now ?tr)"
      and later: "\<forall>e'\<in>set ?tr. last_time sf1 < ev_now e'"
      by auto
    from Cons.prems(6) have heap1: "\<forall>e\<in>set ?tr. \<forall>i. ev_heap e i = 0" by simp
    from b0 have bound: "billed sf1 \<le> unat (last_time sf1)" by simp
    from run_bills [OF r t1 nz sized bound sorted1 later heap1] obtain sf' where
      s': "tracked st' f = Some sf'" "table_sized sf'"
        "last_time sf' = (if ?tr = [] then last_time sf1 else ev_now (last ?tr))"
        "billed sf' + unat (last_time sf1) = billed sf1 + unat (last_time sf')"
      by blast
    from s'(3) True lt1
    have "last_time sf' = ev_now (last (filter (\<lambda>e. ev_file e = f) (e # evs)))" by simp
    with s'(4) b0 lt1 True
    have "billed sf' + unat (ev_now (hd (filter (\<lambda>e. ev_file e = f) (e # evs))))
             = unat (ev_now (last (filter (\<lambda>e. ev_file e = f) (e # evs))))"
      by simp
    with s'(1,2) show ?thesis by blast
  qed
qed

lemma lines_ary_sum:
  "lines_ary sf = Inr ary \<Longrightarrow> table_sized sf \<Longrightarrow> sum_list ary = billed sf"
  by (auto simp: lines_ary_def table_sized_def billed_def split: if_splits option.splits)

lemma summarize_lookup:
  assumes "st_foreach tbl summarize_files ret = Inr (tbl', ret')"
    and "distinct (map fst tbl)"
    and "\<forall>k sf. (k, Pointer sf) \<in> set tbl \<longrightarrow> filename sf = Some k"
  shows "map_of ret' f =
           (case map_of tbl f of
              None \<Rightarrow> map_of ret f
            | Some Qnil_record \<Rightarrow> None
            | Some (Pointer sf) \<Rightarrow> (case lines_ary sf of Inr ary \<Rightarrow> Some ary | Inl _ \<Rightarrow> None))"
  using assms
proof (induction tbl arbitrary: ret tbl' ret')
  case Nil
  then show ?case by simp
next
  case (Cons p tbl)
  obtain k r where p: "p = (k, r)" by (cases p)
  from Cons.prems(1) obtain sf ary t2 where r: "r = Pointer sf" and la: "lines_ary sf = Inr ary"
    and rest: "st_foreach tbl summarize_files (AList.update k ary ret) = Inr (t2, ret')"
    unfolding p summarize_Cons using Cons.prems(3) p
    by (auto split: st_record.splits sum.splits option.splits prod.splits)
  from Cons.prems(2,3) have d: "distinct (map fst tbl)"
    and inv: "\<forall>k sf. (k, Pointer sf) \<in> set tbl \<longrightarrow> filename sf = Some k"
    and fresh: "map_of tbl k = None"
    by (auto simp: p map_of_eq_None_iff)
  note IH = Cons.IH [OF rest d inv]
  show ?case
  proof (cases "f = k")
    case True
    with IH fresh la p r show ?thesis by (simp add: update_conv')
  next
    case False
    with IH p show ?thesis
      by (simp add: update_conv' split: option.splits st_record.splits sum.splits)
  qed
qed

lemma summarize_no_fault:
  "st_foreach tbl summarize_files ret = Inr (tbl', ret') \<Longrightarrow> (k, Pointer sf) \<in> set tbl \<Longrightarrow>
   \<exists>ary. lines_ary sf = Inr ary"
proof (induction tbl arbitrary: ret tbl' ret')
  case Nil
  then show ?case by simp
next
  case (Cons p tbl)
  obtain k' r where p: "p = (k', r)" by (cases p)
  from Cons.prems(1) obtain sf' ary n t2 where r: "r = Pointer sf'" and la: "lines_ary sf' = Inr ary"
    and rest: "st_foreach tbl summarize_files (AList.update n ary ret) = Inr (t2, ret')"
    unfolding p summarize_Cons
    by (auto split: st_record.splits sum.splits option.splits prod.splits)
  from Cons.prems(2) p r consider "sf = sf'" | "(k, Pointer sf) \<in> set tbl" by auto
  then show ?case
  proof cases
    case 1
    with la show ?thesis by blast
  next
    case 2
    from Cons.IH [OF rest 2] show ?thesis .
  qed
qed

lemma hook_distinct:
  assumes "distinct (map fst (files st))" and h: "profiler_hook st e = Inr st'"
  shows "distinct (map fst (files st'))"
proof (cases "source_filename st")
  case (Some s)
  from hook_single_files [OF Some h] assms(1) show ?thesis by simp
next
  case None
  show ?thesis
  proof (cases "st_lookup (files st) (ev_file e)")
    case lookup: None
    then have absent: "ev_file e \<notin> fst ` set (files st)"
      by (simp add: st_lookup_def map_of_eq_None_iff)
    from h hook_unknown_not_regexp [OF None lookup] obtain m where re: "source_regex st = Regex m"
      by fastforce
    show ?thesis
    proof (cases "m (ev_file e)")
      case True
      from h hook_unknown_match [OF None lookup re True] absent assms(1) show ?thesis by auto
    next
      case False
      from h hook_unknown_no_match [OF None lookup re False] absent assms(1) show ?thesis by auto
    qed
  next
    case (Some r)
    show ?thesis
    proof (cases r)
      case Qnil_record
      with h hook_negative [OF None] Some assms(1) show ?thesis by auto
    next
      case (Pointer sf0)
      with Some h hook_known [OF None, of e sf0] obtain sf where
        "st' = st\<lparr>files := st_insert (files st) (ev_file e) (Pointer sf)\<rparr>"
        by (auto split: sum.splits)
      with assms(1) show ?thesis by (simp add: st_insert_def distinct_update)
    qed
  qed
qed

lemma run_distinct:
  "run_events st evs = Inr st' \<Longrightarrow> distinct (map fst (files st)) \<Longrightarrow> distinct (map fst (files st'))"
proof (induction evs arbitrary: st)
  case Nil
  then show ?case by simp
next
  case (Cons e evs)
  from Cons.prems(1) obtain st1 where h: "profiler_hook st e = Inr st1"
    and r: "run_events st1 evs = Inr st'"
    by (auto split: sum.splits)
  from Cons.IH [OF r hook_distinct [OF Cons.prems(2) h]] show ?case .
qed

lemma enable_untouched:
  assumes en: "lineprof_enable st block_given selector = Inr (Inr st1)"
    and "tracks selector f" and "\<forall>s. selector = Str s \<longrightarrow> last_time (file_data st) = 0"
  shows "untouched st1 f"
proof (cases selector)
  case (Str s)
  with en have "lines (file_data st1) = None" "last_time (file_data st1) = last_time (file_data st)"
    by (auto simp: lineprof_enable_def Let_def split: if_splits sum.splits prod.splits)
  with enable_started [OF en] Str assms(2,3) show ?thesis by (simp add: untouched_def)
next
  case (Regex m)
  with enable_started [OF en] assms(2) show ?thesis by (simp add: untouched_def st_lookup_def)
next
  case Qfalse
  with assms(2) show ?thesis by simp
next
  case Object
  with assms(2) show ?thesis by simp
qed

section \<open>The claims\<close>

subsection \<open>C1: writes stay inside the line-time array\<close>

text \<open>
  C1 says that every write of the hook lands below the capacity of the array. The hook
  sizes and grows the array by the line of the current event and writes at the line of
  the previous one. In the first session on file \<open>a\<close>, an event on line 500 followed
  by an event on line 1 allocates 101 slots and writes slot 500.
\<close>

theorem C1_write_beyond_capacity:
  "lineprof Init_rblineprof True (Str ''a'')
     (returning [line_event ''a'' 500 1, line_event ''a'' 1 2]) = Crash out_of_bounds"
  by (simp add: lineprof_defs)

subsection \<open>C2: the worked example\<close>

text \<open>
  C2 as the code has it. A session in single file mode on file \<open>a\<close> that starts with
  no event on record for the single file table (\<open>last_time\<close> is 0, as in a first
  session) and receives the four events of the worked example, at clock readings
  \<open>T\<close>, \<open>T + 1000\<close>, \<open>T + 2500\<close> and \<open>T + 3000\<close> of which the first three are not
  0, reports 1500 for line 1, 1500 for line 2 and 0 for line 3.
\<close>

theorem C2_worked_example:
  assumes "\<not> enabled st" and "last_time (file_data st) = 0"
    and "Qnil_record \<notin> snd ` set (files st)"
    and "T \<noteq> 0" and "T + 1000 \<noteq> 0" and "T + 2500 \<noteq> 0"
  shows "reported_line (lineprof st True (Str ''a'') (worked_example T h)) ''a'' 1 = Some 1500 \<and>
         reported_line (lineprof st True (Str ''a'') (worked_example T h)) ''a'' 2 = Some 1500 \<and>
         reported_line (lineprof st True (Str ''a'') (worked_example T h)) ''a'' 3 = Some 0"
  using assms
  by (simp add: lineprof_def enable_Str reported_def reported_line_def lineprof_report_def
      lines_ary_def profiler_hook_def record_sample_def calloc_def realloc_def
      worked_example_def)

theorem C2_worked_example_witness:
  "\<not> enabled Init_rblineprof \<and> last_time (file_data Init_rblineprof) = 0 \<and>
   Qnil_record \<notin> snd ` set (files Init_rblineprof) \<and>
   (1 :: uint64_t) \<noteq> 0 \<and> (1 :: uint64_t) + 1000 \<noteq> 0 \<and> (1 :: uint64_t) + 2500 \<noteq> 0 \<and>
   reported_line (lineprof Init_rblineprof True (Str ''a'') (worked_example 1 (\<lambda>_. 0))) ''a'' 1 = Some 1500 \<and>
   reported_line (lineprof Init_rblineprof True (Str ''a'') (worked_example 1 (\<lambda>_. 0))) ''a'' 2 = Some 1500 \<and>
   reported_line (lineprof Init_rblineprof True (Str ''a'') (worked_example 1 (\<lambda>_. 0))) ''a'' 3 = Some 0"
  using C2_worked_example [of Init_rblineprof 1 "\<lambda>_. 0"]
  by (simp add: Init_rblineprof_def calloc_sourcefile_def)

text \<open>
  C2 as stated, with the first event at clock reading 0, fails: 0 is the value of
  \<open>last_time\<close> that stands for "no event yet", so the second event bills nothing and
  line 1 is left with the 500 microseconds of its second interval.
\<close>

theorem C2_clock_zero:
  "reported_line (lineprof Init_rblineprof True (Str ''a'') (worked_example 0 (\<lambda>_. 0))) ''a'' 1
     = Some 500"
  by (simp add: lineprof_defs reported_def reported_line_def worked_example_def)

subsection \<open>C3: conservation\<close>

text \<open>
  C3 as the code has it. Take a file the selector tracks, in a session that in single
  file mode starts with no event on record for the single file table, and let its
  events in the block have strictly increasing clock readings, the first not 0, and
  zeros in the memory behind a block that is grown. If the session returns its report,
  the entries reported for the file sum to the last clock reading minus the first. The
  events of other files, tracked or not, may come in between.
\<close>

theorem C3_conservation:
  assumes "tracks selector f"
    and "\<forall>s. selector = Str s \<longrightarrow> last_time (file_data st) = 0"
    and "tr = filter (\<lambda>e. ev_file e = f) (events blk)" and "tr \<noteq> []"
    and "sorted_wrt (<) (map ev_now tr)" and "ev_now (hd tr) \<noteq> 0"
    and "\<forall>e\<in>set tr. \<forall>i. ev_heap e i = 0"
    and "lineprof st block_given selector blk = Return ret st'"
  shows "\<exists>ary. map_of ret f = Some ary \<and>
               sum_list ary + unat (ev_now (hd tr)) = unat (ev_now (last tr))"
proof -
  from assms(8) obtain st1 st2 where en: "lineprof_enable st block_given selector = Inr (Inr st1)"
    and run: "run_events st1 (events blk) = Inr st2"
    and rep: "lineprof_report (st2\<lparr>enabled := False\<rparr>) = Inr ret"
    by (auto simp: lineprof_def Let_def split: sum.splits option.splits)
  note started = enable_started [OF en]
  from enable_untouched [OF en assms(1,2)] have u: "untouched st1 f" .
  from run_conservation [OF run u] assms(3-7) obtain sf where
    t: "tracked st2 f = Some sf" and sized: "table_sized sf"
    and b: "billed sf + unat (ev_now (hd tr)) = unat (ev_now (last tr))"
    by auto
  have "\<exists>ary. map_of ret f = Some ary \<and> sum_list ary = billed sf"
  proof (cases "source_filename st2")
    case (Some s)
    with t have "s = f" "sf = file_data st2" by (auto simp: tracked_def split: if_splits)
    with rep Some obtain ary where "lines_ary sf = Inr ary" "ret = [(f, ary)]"
      by (auto simp: lineprof_report_def split: sum.splits)
    with lines_ary_sum [OF _ sized] show ?thesis by simp
  next
    case None
    with t have lk: "map_of (files st2) f = Some (Pointer sf)"
      by (auto simp: tracked_def st_lookup_def split: option.splits st_record.splits)
    from None rep obtain t2 where sm: "st_foreach (files st2) summarize_files [] = Inr (t2, ret)"
      by (auto simp: lineprof_report_def split: sum.splits prod.splits)
    from None run_frame [OF run] started obtain m where
      sel: "case source_filename st1 of Some s \<Rightarrow> True | None \<Rightarrow> source_regex st1 = Regex m"
      by (cases selector) auto
    from started have "\<forall>k sf. (k, Pointer sf) \<in> set (files st1) \<longrightarrow>
      source_filename st1 = None \<and> m k \<and> filename sf = Some k" by simp
    from run_pointers [OF sel this run]
    have inv: "\<forall>k sf. (k, Pointer sf) \<in> set (files st2) \<longrightarrow> filename sf = Some k" by blast
    from started have "distinct (map fst (files st1))" by simp
    from run_distinct [OF run this] have d: "distinct (map fst (files st2))" .
    from summarize_lookup [OF sm d inv, of f] lk
    have m: "map_of ret f = (case lines_ary sf of Inr ary \<Rightarrow> Some ary | Inl _ \<Rightarrow> None)" by simp
    from lk have "(f, Pointer sf) \<in> set (files st2)" by (rule map_of_SomeD)
    from summarize_no_fault [OF sm this] have "\<exists>ary. lines_ary sf = Inr ary" .
    with m lines_ary_sum [OF _ sized] show ?thesis by auto
  qed
  with b show ?thesis by auto
qed

text \<open>
  The witness: the worked example at \<open>T = 1\<close> in single file mode, and file \<open>a\<close> in
  regex mode under a regexp that matches every name, with events of file \<open>b\<close> in
  between.
\<close>

theorem C3_conservation_witness:
  "tracks (Str ''a'') ''a'' \<and> last_time (file_data Init_rblineprof) = 0 \<and>
   filter (\<lambda>e. ev_file e = ''a'') (events (worked_example 1 (\<lambda>_. 0))) \<noteq> [] \<and>
   sorted_wrt (<) (map ev_now (filter (\<lambda>e. ev_file e = ''a'') (events (worked_example 1 (\<lambda>_. 0))))) \<and>
   ev_now (hd (filter (\<lambda>e. ev_file e = ''a'') (events (worked_example 1 (\<lambda>_. 0))))) = 1 \<and>
   ev_now (last (filter (\<lambda>e. ev_file e = ''a'') (events (worked_example 1 (\<lambda>_. 0))))) = 3001 \<and>
   (\<exists>ret st'. lineprof Init_rblineprof True (Str ''a'') (worked_example 1 (\<lambda>_. 0)) = Return ret st' \<and>
      (\<exists>ary. map_of ret ''a'' = Some ary \<and> sum_list ary + 1 = 3001)) \<and>
   tracks (Regex (\<lambda>f. True)) ''a'' \<and>
   map ev_now (filter (\<lambda>e. ev_file e = ''a'')
     [line_event ''a'' 1 10, line_event ''b'' 7 20, line_event ''a'' 2 50, line_event ''b'' 8 70,
      line_event ''a'' 1 90]) = [10, 50, 90] \<and>
   (\<exists>ret st'. lineprof Init_rblineprof True (Regex (\<lambda>f. True))
        (returning [line_event ''a'' 1 10, line_event ''b'' 7 20, line_event ''a'' 2 50,
                    line_event ''b'' 8 70, line_event ''a'' 1 90]) = Return ret st' \<and>
      (\<exists>ary. map_of ret ''a'' = Some ary \<and> sum_list ary + 10 = 90))"
proof -
  let ?tr = "filter (\<lambda>e. ev_file e = ''a'') (events (worked_example 1 (\<lambda>_. 0)))"
  let ?evs = "[line_event ''a'' 1 10, line_event ''b'' 7 20, line_event ''a'' 2 50,
               line_event ''b'' 8 70, line_event ''a'' 1 90]"
  let ?tr2 = "filter (\<lambda>e. ev_file e = ''a'') (events (returning ?evs))"
  have a: "tracks (Str ''a'') ''a''" "tracks (Regex (\<lambda>f. True)) ''a''" by simp_all
  have b: "\<forall>s. Str ''a'' = Str s \<longrightarrow> last_time (file_data Init_rblineprof) = 0"
    "\<forall>s. Regex (\<lambda>f. True) = Str s \<longrightarrow> last_time (file_data Init_rblineprof) = 0"
    by (simp_all add: Init_rblineprof_def calloc_sourcefile_def)
  have c: "?tr \<noteq> []" "sorted_wrt (<) (map ev_now ?tr)" "ev_now (hd ?tr) \<noteq> 0"
    "\<forall>e\<in>set ?tr. \<forall>i. ev_heap e i = 0" "ev_now (hd ?tr) = 1" "ev_now (last ?tr) = 3001"
    by (simp_all add: worked_example_def)
  have c2: "?tr2 \<noteq> []" "sorted_wrt (<) (map ev_now ?tr2)" "ev_now (hd ?tr2) \<noteq> 0"
    "\<forall>e\<in>set ?tr2. \<forall>i. ev_heap e i = 0" "ev_now (hd ?tr2) = 10" "ev_now (last ?tr2) = 90"
    "map ev_now (filter (\<lambda>e. ev_file e = ''a'') ?evs) = [10, 50, 90]"
    by simp_all
  obtain ret st' where d: "lineprof Init_rblineprof True (Str ''a'') (worked_example 1 (\<lambda>_. 0)) = Return ret st'"
    by (simp add: lineprof_defs worked_example_def)
  obtain ret2 st2 where d2: "lineprof Init_rblineprof True (Regex (\<lambda>f. True)) (returning ?evs) = Return ret2 st2"
    by (simp add: lineprof_defs)
  from C3_conservation [OF a(1) b(1) refl c(1,2,3,4) d] c(5,6)
  have e: "\<exists>ary. map_of ret ''a'' = Some ary \<and> sum_list ary + 1 = 3001" by simp
  from C3_conservation [OF a(2) b(2) refl c2(1,2,3,4) d2] c2(5,6)
  have e2: "\<exists>ary. map_of ret2 ''a'' = Some ary \<and> sum_list ary + 10 = 90" by simp
  from d e have f: "\<exists>ret st'. lineprof Init_rblineprof True (Str ''a'') (worked_example 1 (\<lambda>_. 0)) = Return ret st' \<and>
      (\<exists>ary. map_of ret ''a'' = Some ary \<and> sum_list ary + 1 = 3001)" by blast
  from d2 e2 have f2: "\<exists>ret st'. lineprof Init_rblineprof True (Regex (\<lambda>f. True)) (returning ?evs) = Return ret st' \<and>
      (\<exists>ary. map_of ret ''a'' = Some ary \<and> sum_list ary + 10 = 90)" by blast
  from a b(1) c(1,2,5,6) c2(7) f f2 show ?thesis by simp
qed

text \<open>
  C3 as stated fails when the first clock reading is 0, the value of \<open>last_time\<close> that
  stands for "no event yet": of two events at 0 and 5 nothing is billed, and the report
  for the file is empty.
\<close>

theorem C3_first_interval_lost:
  "reported (lineprof Init_rblineprof True (Str ''a'')
      (returning [line_event ''a'' 1 0, line_event ''a'' 2 5])) ''a'' = Some [] \<and>
   sum_list ([] :: nat list) \<noteq> unat (5 :: uint64_t) - unat (0 :: uint64_t)"
  by (simp add: lineprof_defs reported_def)

subsection \<open>C4: growing the line-time array\<close>

text \<open>
  C4 says that the slots added by a regrow hold zero. The first allocation is a
  \<open>calloc\<close>, the regrow a \<open>realloc\<close> with nothing after it, so the added slots hold
  what the heap held. In the first session on file \<open>a\<close> the events on lines 1 and 2
  allocate 102 slots, the event on line 150 grows the array to 250 slots, and with 7 in
  the memory behind the old block the report shows 7 microseconds for line 200, which
  never ran. The rest of C4 holds there: the array has 250 slots, slot 1 keeps its
  count, and slot 2 gets its interval.
\<close>

theorem C4_regrown_slots_not_zeroed:
  "reported_line (lineprof Init_rblineprof True (Str ''a'') regrow_example) ''a'' 200 = Some 7 \<and>
   reported_line (lineprof Init_rblineprof True (Str ''a'') regrow_example) ''a'' 1 = Some 1 \<and>
   reported_line (lineprof Init_rblineprof True (Str ''a'') regrow_example) ''a'' 2 = Some 1 \<and>
   map_option length (reported (lineprof Init_rblineprof True (Str ''a'') regrow_example) ''a'')
     = Some 250"
  by (simp add: lineprof_defs reported_def reported_line_def regrow_example_def nth_append)

subsection \<open>C5: enable while enabled\<close>

text \<open>
  C5 as the code has it: \<open>lineprof\<close> called while a session is enabled raises
  \<open>ArgumentError\<close>, the class of its two other errors, and leaves the global state as
  it was. Without a block the message is the one of the missing block, which is checked
  first; with a block it is "profiler is already enabled".
\<close>

theorem C5_reentrant_enable:
  "enabled st \<Longrightarrow>
   lineprof st block_given selector blk =
     Raise (rb_raise rb_eArgError
              (if block_given then ''profiler is already enabled'' else ''block required'')) st"
  by (simp add: lineprof_def lineprof_enable_def)

text \<open>
  The state of the witness is the one a first session on file \<open>a\<close> is in while its
  block runs.
\<close>

theorem C5_reentrant_enable_witness:
  "enabled (Init_rblineprof\<lparr>source_filename := Some ''a'', enabled := True\<rparr>) \<and>
   lineprof (Init_rblineprof\<lparr>source_filename := Some ''a'', enabled := True\<rparr>) True
       (Regex (\<lambda>f. f = ''b'')) (returning []) =
     Raise (rb_raise rb_eArgError ''profiler is already enabled'')
       (Init_rblineprof\<lparr>source_filename := Some ''a'', enabled := True\<rparr>)"
  using C5_reentrant_enable [of "Init_rblineprof\<lparr>source_filename := Some ''a'', enabled := True\<rparr>"
      True "Regex (\<lambda>f. f = ''b'')" "returning []"]
  by simp

text \<open>
  C5 as stated fails: the error of the second enable has the class of the error of a
  missing block and of an unsupported selector.
\<close>

theorem C5_same_error_class:
  "lineprof (Init_rblineprof\<lparr>enabled := True\<rparr>) True (Str ''a'') (returning []) =
     Raise (rb_raise rb_eArgError ''profiler is already enabled'') (Init_rblineprof\<lparr>enabled := True\<rparr>) \<and>
   lineprof Init_rblineprof False (Str ''a'') (returning []) =
     Raise (rb_raise rb_eArgError ''block required'') Init_rblineprof \<and>
   lineprof Init_rblineprof True Object (returning []) =
     Raise (rb_raise rb_eArgError ''argument must be String or Regexp'') Init_rblineprof"
  by (simp add: lineprof_def lineprof_enable_def Init_rblineprof_def)

subsection \<open>C6: cleanup across sessions\<close>

text \<open>
  C6 says that a second session starts with nothing left of the first. The cleanup
  frees the array of the single file table and resets \<open>nlines\<close>, and leaves
  \<open>last_time\<close> and \<open>last_line\<close> as the first session set them. After a first session
  on file \<open>a\<close> with events on lines 5 and 6 at clock readings 10 and 20, a second
  session on file \<open>b\<close> with the single event on line 1 at clock reading 100 reports
  80 microseconds for line 6 of \<open>b\<close>: the time between the sessions, billed to the
  last line of the first. The same second session in a fresh process reports the empty
  sequence.
\<close>

theorem C6_residue_of_first_session:
  "(case lineprof Init_rblineprof True (Str ''a'')
           (returning [line_event ''a'' 5 10, line_event ''a'' 6 20]) of
      Return r st \<Rightarrow>
        reported_line (lineprof st True (Str ''b'') (returning [line_event ''b'' 1 100])) ''b'' 6
          = Some 80
    | _ \<Rightarrow> False) \<and>
   reported (lineprof Init_rblineprof True (Str ''b'') (returning [line_event ''b'' 1 100])) ''b''
     = Some []"
  by (simp add: lineprof_defs reported_def reported_line_def)

subsection \<open>C7: untracked files are isolated\<close>

text \<open>
  C7: for a file name the selector of a session leaves untracked, the table holds no
  \<open>sourcefile_t\<close> for it after any number of events of the session, whatever files and
  lines they name, and a report the session returns has no key for it.
\<close>

theorem C7_untracked_isolated:
  assumes "rejects selector f"
  shows "(\<forall>st1 evs st2. lineprof_enable st block_given selector = Inr (Inr st1) \<longrightarrow>
            run_events st1 evs = Inr st2 \<longrightarrow>
            (\<forall>sf. st_lookup (files st2) f \<noteq> Some (Pointer sf))) \<and>
         (\<forall>blk ret st'. lineprof st block_given selector blk = Return ret st' \<longrightarrow>
            map_of ret f = None)"
proof (intro conjI allI impI)
  fix st1 evs st2 sf
  assume en: "lineprof_enable st block_given selector = Inr (Inr st1)"
    and run: "run_events st1 evs = Inr st2"
  note started = enable_started [OF en]
  obtain m where m: "\<not> m f"
    "case source_filename st1 of Some s \<Rightarrow> True | None \<Rightarrow> source_regex st1 = Regex m"
    using assms started by (cases selector) auto
  from started have "\<forall>k sf. (k, Pointer sf) \<in> set (files st1) \<longrightarrow>
      source_filename st1 = None \<and> m k \<and> filename sf = Some k" by simp
  from run_pointers [OF m(2) this run] m(1)
  have "(f, Pointer sf) \<notin> set (files st2)" by blast
  then show "st_lookup (files st2) f \<noteq> Some (Pointer sf)"
    by (auto simp: st_lookup_def dest: map_of_SomeD)
next
  fix blk ret st'
  assume ret: "lineprof st block_given selector blk = Return ret st'"
  then obtain st1 st2 where en: "lineprof_enable st block_given selector = Inr (Inr st1)"
    and run: "run_events st1 (events blk) = Inr st2"
    and rep: "lineprof_report (st2\<lparr>enabled := False\<rparr>) = Inr ret"
    by (auto simp: lineprof_def Let_def split: sum.splits option.splits)
  note started = enable_started [OF en]
  have "f \<notin> fst ` set ret"
  proof (cases selector)
    case (Str s)
    with started run_frame [OF run] have "source_filename st2 = Some s" by simp
    with rep have "fst ` set ret = {s}"
      by (auto simp: lineprof_report_def split: sum.splits)
    with assms Str show ?thesis by simp
  next
    case (Regex m)
    with started have sel: "case source_filename st1 of Some s \<Rightarrow> True | None \<Rightarrow> source_regex st1 = Regex m"
      by simp
    from started have "\<forall>k sf. (k, Pointer sf) \<in> set (files st1) \<longrightarrow>
      source_filename st1 = None \<and> m k \<and> filename sf = Some k" by simp
    note inv = run_pointers [OF sel this run]
    from Regex started run_frame [OF run] have "source_filename st2 = None" by simp
    with rep obtain t where "st_foreach (files st2) summarize_files [] = Inr (t, ret)"
      by (auto simp: lineprof_report_def split: sum.splits prod.splits)
    from summarize_keys [OF this] inv assms Regex show ?thesis by auto
  next
    case Qfalse
    with assms show ?thesis by simp
  next
    case Object
    with assms show ?thesis by simp
  qed
  then show "map_of ret f = None" by (simp add: map_of_eq_None_iff)
qed

theorem C7_untracked_isolated_witness:
  "rejects (Regex (\<lambda>f. f = ''a'')) ''b'' \<and>
   (\<exists>st1 st2.
      lineprof_enable Init_rblineprof True (Regex (\<lambda>f. f = ''a'')) = Inr (Inr st1) \<and>
      run_events st1 [line_event ''b'' 3 5, line_event ''a'' 1 10, line_event ''b'' 4 20] = Inr st2 \<and>
      (\<forall>sf. st_lookup (files st2) ''b'' \<noteq> Some (Pointer sf))) \<and>
   rejects (Str ''a'') ''b'' \<and>
   (\<exists>ret st'.
      lineprof Init_rblineprof True (Str ''a'')
        (returning [line_event ''b'' 3 5, line_event ''a'' 1 10, line_event ''b'' 4 20, line_event ''a'' 2 30])
        = Return ret st' \<and>
      map_of ret ''b'' = None)"
proof -
  have r1: "rejects (Regex (\<lambda>f. f = ''a'')) ''b''" and r2: "rejects (Str ''a'') ''b''"
    by simp_all
  obtain st1 where en: "lineprof_enable Init_rblineprof True (Regex (\<lambda>f. f = ''a'')) = Inr (Inr st1)"
    and st1: "st1 = Init_rblineprof\<lparr>source_regex := Regex (\<lambda>f. f = ''a''), enabled := True\<rparr>"
    by (simp add: lineprof_defs)
  obtain st2 where run:
    "run_events st1 [line_event ''b'' 3 5, line_event ''a'' 1 10, line_event ''b'' 4 20] = Inr st2"
    unfolding st1 by (simp add: lineprof_defs)
  obtain ret st' where out:
    "lineprof Init_rblineprof True (Str ''a'')
        (returning [line_event ''b'' 3 5, line_event ''a'' 1 10, line_event ''b'' 4 20, line_event ''a'' 2 30])
        = Return ret st'"
    by (simp add: lineprof_defs)
  from C7_untracked_isolated [OF r1, of Init_rblineprof True] en run
  have "\<forall>sf. st_lookup (files st2) ''b'' \<noteq> Some (Pointer sf)" by blast
  moreover from C7_untracked_isolated [OF r2, of Init_rblineprof True] out
  have "map_of ret ''b'' = None" by blast
  ultimately show ?thesis using r1 r2 en run out by blast
qed

subsection \<open>C8: one regexp search per file name\<close>

text \<open>
  C8: over any run of the hook, the regexp is searched at most once on each file name,
  and not at all on a file name the table already holds an entry for, matched or not.
  The searches of the run are the entries the run appends to the log.
\<close>

theorem C8_pattern_evaluated_once:
  assumes "run_events st evs = Inr st'"
  shows "\<exists>new. reg_search_log st' = reg_search_log st @ new \<and> count_list new f \<le> 1 \<and>
               (st_lookup (files st) f \<noteq> None \<longrightarrow> count_list new f = 0)"
proof -
  from run_log [OF assms] obtain new where
    n: "reg_search_log st' = reg_search_log st @ new" "distinct new"
       "set new \<inter> fst ` set (files st) = {}"
    by blast
  have "st_lookup (files st) f \<noteq> None \<longrightarrow> f \<notin> set new"
    using n(3) by (auto simp: st_lookup_def map_of_eq_None_iff)
  then have "st_lookup (files st) f \<noteq> None \<longrightarrow> count_list new f = 0"
    by (simp add: count_list_absent)
  with n(1) count_list_distinct [OF n(2), of f] show ?thesis by blast
qed

theorem C8_pattern_evaluated_once_witness:
  "\<exists>st'. run_events (Init_rblineprof\<lparr>source_regex := Regex (\<lambda>f. f = ''a''), enabled := True,
                        files := [(''b'', Qnil_record)], reg_search_log := [''b'']\<rparr>)
            [line_event ''b'' 3 5, line_event ''a'' 1 10, line_event ''b'' 4 20, line_event ''a'' 2 30]
            = Inr st' \<and>
     st_lookup [(''b'', Qnil_record)] ''b'' \<noteq> None \<and>
     (\<exists>new. reg_search_log st' = [''b''] @ new \<and> count_list new ''b'' \<le> 1 \<and> count_list new ''b'' = 0)"
proof -
  let ?st = "Init_rblineprof\<lparr>source_regex := Regex (\<lambda>f. f = ''a''), enabled := True,
                        files := [(''b'', Qnil_record)], reg_search_log := [''b'']\<rparr>"
  obtain st' where run: "run_events ?st
      [line_event ''b'' 3 5, line_event ''a'' 1 10, line_event ''b'' 4 20, line_event ''a'' 2 30] = Inr st'"
    by (simp add: lineprof_defs)
  have known: "st_lookup [(''b'', Qnil_record)] ''b'' \<noteq> None"
    by (simp add: st_lookup_def)
  from C8_pattern_evaluated_once [OF run, of "''b''"] known
  have "\<exists>new. reg_search_log st' = [''b''] @ new \<and> count_list new ''b'' \<le> 1 \<and> count_list new ''b'' = 0"
    by (simp add: Init_rblineprof_def)
  with run known show ?thesis by blast
qed

subsection \<open>C9: events of untracked files\<close>

text \<open>
  C9 says that events of untracked files are no-ops for the tracked files, and that
  under a pattern tracking file \<open>a\<close> and not file \<open>b\<close> the events on \<open>a\<close> line 1,
  \<open>b\<close> line 9 and \<open>a\<close> line 2, 500 and 900 microseconds apart, yield a report with
  900 for line 1 of \<open>a\<close> and no key for \<open>b\<close>. The hook does its part: with the clock
  readings 1, 501 and 901 the events leave 900 in slot 1 of the array of \<open>a\<close> and the
  negative entry, no \<open>sourcefile_t\<close>, for \<open>b\<close>. The report is never built:
  \<open>summarize_files\<close> reads the negative entry of \<open>b\<close> as a pointer, without the check
  for the sentinel that \<open>profiler_hook\<close> and \<open>cleanup_files\<close> make, and \<open>lineprof\<close>
  ends in the fault \<open>invalid_pointer\<close>. It ends the same way at the clock readings 0,
  500 and 900 of the specification.
\<close>

theorem C9_report_dereferences_sentinel:
  "lineprof Init_rblineprof True (Regex (\<lambda>f. f = ''a'')) (returning (cross_file_example 1 (\<lambda>_. 0)))
     = Crash invalid_pointer \<and>
   (case run_events (Init_rblineprof\<lparr>source_regex := Regex (\<lambda>f. f = ''a''), enabled := True\<rparr>)
           (cross_file_example 1 (\<lambda>_. 0)) of
      Inr st2 \<Rightarrow>
        st_lookup (files st2) ''a'' =
          Some (Pointer \<lparr>filename = Some ''a'', lines = Some ((replicate 102 0)[1 := 900]),
                         nlines = 102, last_time = 901, last_line = 2\<rparr>) \<and>
        st_lookup (files st2) ''b'' = Some Qnil_record
    | Inl flt \<Rightarrow> False) \<and>
   lineprof_enable Init_rblineprof True (Regex (\<lambda>f. f = ''a'')) =
     Inr (Inr (Init_rblineprof\<lparr>source_regex := Regex (\<lambda>f. f = ''a''), enabled := True\<rparr>)) \<and>
   lineprof Init_rblineprof True (Regex (\<lambda>f. f = ''a'')) (returning (cross_file_example 0 (\<lambda>_. 0)))
     = Crash invalid_pointer"
  by (simp add: lineprof_defs cross_file_example_def)

text \<open>
  The part of the claim about the hook holds in general. An event of a file the
  selector leaves untracked changes no tracking record: the hook returns the state as it was, or, in
  regex mode on a file name seen for the first time, the state with the negative entry
  for that name added to the table (and the search logged). And in the cross-file
  example with clock readings \<open>T\<close>, \<open>T + 500\<close>, \<open>T + 900\<close> and \<open>T\<close> not 0, under any
  regexp that matches \<open>a\<close> and not \<open>b\<close>, the events leave 900 in slot 1 of the array
  of \<open>a\<close> and the negative entry for \<open>b\<close>.
\<close>

lemma untracked_events_no_ops:
  "(rejects selector f \<and> lineprof_enable st block_given selector = Inr (Inr st1) \<and>
    run_events st1 evs = Inr st2 \<and> ev_file e = f \<longrightarrow>
      profiler_hook st2 e = Inr st2 \<or>
      st_lookup (files st2) f = None \<and>
      profiler_hook st2 e =
        Inr (st2\<lparr>reg_search_log := reg_search_log st2 @ [f],
                 files := files st2 @ [(f, Qnil_record)]\<rparr>)) \<and>
   (m ''a'' \<and> \<not> m ''b'' \<and> T \<noteq> 0 \<and> lineprof_enable st block_given (Regex m) = Inr (Inr st1) \<longrightarrow>
      (\<exists>st2. run_events st1 (cross_file_example T h) = Inr st2 \<and>
         st_lookup (files st2) ''a'' =
           Some (Pointer \<lparr>filename = Some ''a'', lines = Some ((replicate 102 0)[1 := 900]),
                          nlines = 102, last_time = T + 900, last_line = 2\<rparr>) \<and>
         st_lookup (files st2) ''b'' = Some Qnil_record))"
proof (intro conjI impI; (elim conjE)?)
  assume rej: "rejects selector f"
    and en: "lineprof_enable st block_given selector = Inr (Inr st1)"
    and run: "run_events st1 evs = Inr st2" and e: "ev_file e = f"
  note started = enable_started [OF en]
  show "profiler_hook st2 e = Inr st2 \<or>
      st_lookup (files st2) f = None \<and>
      profiler_hook st2 e =
        Inr (st2\<lparr>reg_search_log := reg_search_log st2 @ [f],
                 files := files st2 @ [(f, Qnil_record)]\<rparr>)"
  proof (cases selector)
    case (Str s)
    with started run_frame [OF run] have "source_filename st2 = Some s" by simp
    from hook_single_other [OF this] rej Str e show ?thesis by simp
  next
    case (Regex m)
    with started run_frame [OF run] have mode: "source_filename st2 = None"
      and re: "source_regex st2 = Regex m" by simp_all
    from Regex rej e have nm: "\<not> m (ev_file e)" by simp
    from Regex started have sel: "case source_filename st1 of Some s \<Rightarrow> True | None \<Rightarrow> source_regex st1 = Regex m"
      by simp
    from started have "\<forall>k sf. (k, Pointer sf) \<in> set (files st1) \<longrightarrow>
      source_filename st1 = None \<and> m k \<and> filename sf = Some k" by simp
    note inv = run_pointers [OF sel this run]
    show ?thesis
    proof (cases "st_lookup (files st2) (ev_file e)")
      case None
      from hook_unknown_no_match [OF mode None re nm] None e show ?thesis by simp
    next
      case (Some r)
      show ?thesis
      proof (cases r)
        case Qnil_record
        with Some hook_negative [OF mode] show ?thesis by simp
      next
        case (Pointer sf)
        with Some have "(ev_file e, Pointer sf) \<in> set (files st2)"
          by (simp add: st_lookup_def map_of_SomeD)
        with inv nm show ?thesis by blast
      qed
    qed
  next
    case Qfalse
    with rej show ?thesis by simp
  next
    case Object
    with rej show ?thesis by simp
  qed
next
  assume m: "m ''a''" "\<not> m ''b''" and T: "T \<noteq> 0"
    and en: "lineprof_enable st block_given (Regex m) = Inr (Inr st1)"
  from enable_started [OF en] have "files st1 = []" "source_filename st1 = None"
    "source_regex st1 = Regex m" by simp_all
  with m T show "\<exists>st2. run_events st1 (cross_file_example T h) = Inr st2 \<and>
         st_lookup (files st2) ''a'' =
           Some (Pointer \<lparr>filename = Some ''a'', lines = Some ((replicate 102 0)[1 := 900]),
                          nlines = 102, last_time = T + 900, last_line = 2\<rparr>) \<and>
         st_lookup (files st2) ''b'' = Some Qnil_record"
    by (simp add: cross_file_example_def profiler_hook_def record_sample_def calloc_def
        realloc_def st_lookup_def st_insert_def rb_reg_search_def calloc_sourcefile_def)
qed

subsection \<open>C10: keys of the report\<close>

text \<open>
  C10: a report returned in single file mode has the configured file name as a key, and
  maps it to the empty sequence when no event of the block names that file; a report
  returned in regex mode has no key for a file that no event of the block names.
\<close>

theorem C10_report_keys:
  "(\<forall>ret st'. lineprof st block_given (Str s) blk = Return ret st' \<longrightarrow>
       (\<exists>ary. map_of ret s = Some ary) \<and>
       (s \<notin> ev_file ` set (events blk) \<longrightarrow> map_of ret s = Some [])) \<and>
   (\<forall>ret st'. lineprof st block_given (Regex m) blk = Return ret st' \<longrightarrow>
       f \<notin> ev_file ` set (events blk) \<longrightarrow> map_of ret f = None)"
proof (intro conjI allI impI)
  fix ret st'
  assume "lineprof st block_given (Str s) blk = Return ret st'"
  then obtain st1 st2 where en: "lineprof_enable st block_given (Str s) = Inr (Inr st1)"
    and run: "run_events st1 (events blk) = Inr st2"
    and rep: "lineprof_report (st2\<lparr>enabled := False\<rparr>) = Inr ret"
    by (auto simp: lineprof_def Let_def split: sum.splits option.splits)
  from enable_started [OF en] run_frame [OF run] have sf: "source_filename st2 = Some s" by simp
  with rep obtain ary where ary: "lines_ary (file_data st2) = Inr ary" "ret = [(s, ary)]"
    by (auto simp: lineprof_report_def split: sum.splits)
  then show "\<exists>ary. map_of ret s = Some ary" by simp
  assume "s \<notin> ev_file ` set (events blk)"
  with run enable_started [OF en] have "st2 = st1"
    by (simp add: run_single_ignored)
  moreover from en have "lines (file_data st1) = None"
    by (auto simp: lineprof_enable_def Let_def split: if_splits sum.splits prod.splits)
  ultimately have "ary = []" using ary(1)
    by (auto simp: lines_ary_def split: if_splits)
  with ary show "map_of ret s = Some []" by simp
next
  fix ret st'
  assume ret: "lineprof st block_given (Regex m) blk = Return ret st'"
    and f: "f \<notin> ev_file ` set (events blk)"
  then obtain st1 st2 where en: "lineprof_enable st block_given (Regex m) = Inr (Inr st1)"
    and run: "run_events st1 (events blk) = Inr st2"
    and rep: "lineprof_report (st2\<lparr>enabled := False\<rparr>) = Inr ret"
    by (auto simp: lineprof_def Let_def split: sum.splits option.splits)
  note started = enable_started [OF en]
  from started have sel: "case source_filename st1 of Some s \<Rightarrow> True | None \<Rightarrow> source_regex st1 = Regex m"
    by simp
  from started have "\<forall>k sf. (k, Pointer sf) \<in> set (files st1) \<longrightarrow>
      source_filename st1 = None \<and> m k \<and> filename sf = Some k" by simp
  note inv = run_pointers [OF sel this run]
  from run_keys [OF run] started f have nokey: "f \<notin> fst ` set (files st2)" by auto
  from started run_frame [OF run] have "source_filename st2 = None" by simp
  with rep obtain t where "st_foreach (files st2) summarize_files [] = Inr (t, ret)"
    by (auto simp: lineprof_report_def split: sum.splits prod.splits)
  from summarize_keys [OF this] inv nokey have "f \<notin> fst ` set ret" by force
  then show "map_of ret f = None" by (simp add: map_of_eq_None_iff)
qed

theorem C10_report_keys_witness:
  "lineprof Init_rblineprof True (Str ''a'') (returning [line_event ''b'' 3 5, line_event ''b'' 4 9]) =
     Return [(''a'', [])] (Init_rblineprof\<lparr>source_filename := Some ''a''\<rparr>) \<and>
   map_of [(''a'', [])] ''a'' = Some ([] :: nat list) \<and>
   ''a'' \<notin> ev_file ` set [line_event ''b'' 3 5, line_event ''b'' 4 9] \<and>
   (\<exists>ret st'. lineprof Init_rblineprof True (Regex (\<lambda>f. f = ''a''))
        (returning [line_event ''a'' 1 10, line_event ''a'' 2 30]) = Return ret st' \<and>
      ''c'' \<notin> ev_file ` set [line_event ''a'' 1 10, line_event ''a'' 2 30] \<and>
      map_of ret ''c'' = None)"
proof -
  have a: "lineprof Init_rblineprof True (Str ''a'') (returning [line_event ''b'' 3 5, line_event ''b'' 4 9]) =
     Return [(''a'', [])] (Init_rblineprof\<lparr>source_filename := Some ''a''\<rparr>)"
    by (simp add: lineprof_defs)
  have b: "''a'' \<notin> ev_file ` set [line_event ''b'' 3 5, line_event ''b'' 4 9]" by simp
  obtain ret st' where c: "lineprof Init_rblineprof True (Regex (\<lambda>f. f = ''a''))
        (returning [line_event ''a'' 1 10, line_event ''a'' 2 30]) = Return ret st'"
    by (simp add: lineprof_defs)
  have d: "''c'' \<notin> ev_file ` set [line_event ''a'' 1 10, line_event ''a'' 2 30]" by simp
  from C10_report_keys [where st = Init_rblineprof and block_given = True and s = "''a''"
      and blk = "returning [line_event ''b'' 3 5, line_event ''b'' 4 9]", THEN conjunct1] a b
  have e: "map_of [(''a'', [])] ''a'' = Some ([] :: nat list)" by simp
  from C10_report_keys [where st = Init_rblineprof and block_given = True
      and m = "\<lambda>f. f = ''a''" and f = "''c''"
      and blk = "returning [line_event ''a'' 1 10, line_event ''a'' 2 30]", THEN conjunct2] c d
  have "map_of ret ''c'' = None" by simp
  with a b c d e show ?thesis by blast
qed

end
